theory Spec2Isabelle
  imports Complex_Main "HOL-Library.Multiset"
begin

section \<open>Values of a float64 column\<close>

text \<open>
  The analytics work on pandas columns of float64. A value is a finite number, the
  missing-value marker NaN, or one of the two infinities. Finite arithmetic is exact
  (rounding and overflow are not part of this development); the special values follow
  IEEE 754, which is what numpy computes: NaN is contagious, every comparison with NaN
  is false, \<open>inf - inf\<close> and \<open>0 * inf\<close> are NaN, a non-zero finite number divided by zero
  is an infinity and \<open>0 / 0\<close> is NaN. The zero divisors met here are standard deviations,
  so a zero divisor is taken as \<open>+0.0\<close>.
\<close>

datatype fl = Fin real | NaN | PInf | NInf

fun fl_neg :: "fl \<Rightarrow> fl" where
  "fl_neg (Fin a) = Fin (- a)"
| "fl_neg NaN = NaN"
| "fl_neg PInf = NInf"
| "fl_neg NInf = PInf"

fun fl_add :: "fl \<Rightarrow> fl \<Rightarrow> fl" where
  "fl_add NaN _ = NaN"
| "fl_add _ NaN = NaN"
| "fl_add (Fin a) (Fin b) = Fin (a + b)"
| "fl_add PInf NInf = NaN"
| "fl_add NInf PInf = NaN"
| "fl_add PInf _ = PInf"
| "fl_add NInf _ = NInf"
| "fl_add (Fin a) PInf = PInf"
| "fl_add (Fin a) NInf = NInf"

definition fl_sub :: "fl \<Rightarrow> fl \<Rightarrow> fl" where
  "fl_sub a b = fl_add a (fl_neg b)"

text \<open>The sign of an infinite product or quotient: \<open>pos\<close> tells whether it is positive.\<close>

definition inf_of :: "bool \<Rightarrow> fl" where
  "inf_of pos = (if pos then PInf else NInf)"

fun fl_mul :: "fl \<Rightarrow> fl \<Rightarrow> fl" where
  "fl_mul NaN _ = NaN"
| "fl_mul _ NaN = NaN"
| "fl_mul (Fin a) (Fin b) = Fin (a * b)"
| "fl_mul (Fin a) PInf = (if a = 0 then NaN else inf_of (0 < a))"
| "fl_mul (Fin a) NInf = (if a = 0 then NaN else inf_of (a < 0))"
| "fl_mul PInf (Fin b) = (if b = 0 then NaN else inf_of (0 < b))"
| "fl_mul NInf (Fin b) = (if b = 0 then NaN else inf_of (b < 0))"
| "fl_mul PInf PInf = PInf"
| "fl_mul NInf NInf = PInf"
| "fl_mul PInf NInf = NInf"
| "fl_mul NInf PInf = NInf"

fun fl_div :: "fl \<Rightarrow> fl \<Rightarrow> fl" where
  "fl_div NaN _ = NaN"
| "fl_div _ NaN = NaN"
| "fl_div (Fin a) (Fin b) =
     (if b = 0 then (if a = 0 then NaN else inf_of (0 < a)) else Fin (a / b))"
| "fl_div (Fin a) PInf = Fin 0"
| "fl_div (Fin a) NInf = Fin 0"
| "fl_div PInf (Fin b) = inf_of (0 \<le> b)"
| "fl_div NInf (Fin b) = inf_of (b < 0)"
| "fl_div PInf _ = NaN"
| "fl_div NInf _ = NaN"

fun fl_lt :: "fl \<Rightarrow> fl \<Rightarrow> bool" where
  "fl_lt NaN _ = False"
| "fl_lt _ NaN = False"
| "fl_lt (Fin a) (Fin b) = (a < b)"
| "fl_lt NInf NInf = False"
| "fl_lt NInf _ = True"
| "fl_lt _ NInf = False"
| "fl_lt PInf _ = False"
| "fl_lt (Fin a) PInf = True"

fun fl_le :: "fl \<Rightarrow> fl \<Rightarrow> bool" where
  "fl_le NaN _ = False"
| "fl_le _ NaN = False"
| "fl_le a b = (a = b \<or> fl_lt a b)"

definition fl_gt :: "fl \<Rightarrow> fl \<Rightarrow> bool" where
  "fl_gt a b = fl_lt b a"

definition fl_ge :: "fl \<Rightarrow> fl \<Rightarrow> bool" where
  "fl_ge a b = fl_le b a"

definition isna :: "fl \<Rightarrow> bool" where
  "isna v = (v = NaN)"

fun is_finite :: "fl \<Rightarrow> bool" where
  "is_finite (Fin a) = True"
| "is_finite _ = False"

fun fin_val :: "fl \<Rightarrow> real" where
  "fin_val (Fin a) = a"
| "fin_val _ = 0"

section \<open>Series and two-column frames\<close>

text \<open>
  A pandas Series is a list of (index label, value) rows; the labels are timestamps in
  nanoseconds. The series of this program are columns of resampled bars, so their labels
  are unique and ascending.

  Putting two series side by side (\<open>pd.concat([a, b], axis=1)\<close>, and
  \<open>pd.DataFrame({'spread': a, 'z': b})\<close>) aligns them on the index: when the two
  indexes are equal the rows are paired by position; otherwise the frame is built on the
  ascending union of the labels and a series has NaN at each label it lacks.
\<close>

type_synonym series = "(int \<times> fl) list"

definition index_of :: "series \<Rightarrow> int list" where
  "index_of s = map fst s"

definition values_of :: "series \<Rightarrow> fl list" where
  "values_of s = map snd s"

definition at_label :: "series \<Rightarrow> int \<Rightarrow> fl" where
  "at_label s t = (case map_of s t of None \<Rightarrow> NaN | Some v \<Rightarrow> v)"

definition union_index :: "int list \<Rightarrow> int list \<Rightarrow> int list" where
  "union_index a b = (if a = b then a else sort (remdups (a @ b)))"

definition concat_axis1 :: "series \<Rightarrow> series \<Rightarrow> (int \<times> fl \<times> fl) list" where
  "concat_axis1 sa sb =
     (if index_of sa = index_of sb
      then map2 (\<lambda>(t, a) (_, b). (t, a, b)) sa sb
      else map (\<lambda>t. (t, at_label sa t, at_label sb t))
               (union_index (index_of sa) (index_of sb)))"

definition dropna :: "(int \<times> fl \<times> fl) list \<Rightarrow> (int \<times> fl \<times> fl) list" where
  "dropna df = filter (\<lambda>(t, a, b). \<not> isna a \<and> \<not> isna b) df"

definition series_dropna :: "series \<Rightarrow> series" where
  "series_dropna s = filter (\<lambda>(t, v). \<not> isna v) s"


section \<open>Backtest simulator: \<open>run_backtest\<close>\<close>

text \<open>
  The body of the loop of \<open>run_backtest\<close>: one pass of the entry and exit tests on the
  current position (0 flat, 1 long, -1 short) with the z-score of the row.
\<close>

definition backtest_step :: "fl \<Rightarrow> int \<Rightarrow> fl \<Rightarrow> int" where
  "backtest_step entry_threshold current_pos zv =
     (if current_pos = 0 then
        (if fl_gt zv entry_threshold then - 1
         else if fl_lt zv (fl_neg entry_threshold) then 1
         else current_pos)
      else if current_pos = - 1 \<and> fl_le zv (Fin 0) then 0
      else if current_pos = 1 \<and> fl_ge zv (Fin 0) then 0
      else current_pos)"

text \<open>The loop over the rows, appending the position after each row.\<close>

fun positions_loop :: "fl \<Rightarrow> int \<Rightarrow> fl list \<Rightarrow> int list" where
  "positions_loop entry_threshold current_pos [] = []"
| "positions_loop entry_threshold current_pos (zv # zs) =
     (let current_pos' = backtest_step entry_threshold current_pos zv
      in current_pos' # positions_loop entry_threshold current_pos' zs)"

text \<open>
  The column operations of pandas used after the loop. \<open>shift(1)\<close> moves every value one
  row down and puts NaN in the first row; \<open>diff()\<close> subtracts the shifted column;
  \<open>cumsum()\<close> skips NaN: it leaves NaN where the input has NaN and adds up the other
  values.
\<close>

definition shift1 :: "fl list \<Rightarrow> fl list" where
  "shift1 xs = (if xs = [] then [] else NaN # butlast xs)"

definition diff :: "fl list \<Rightarrow> fl list" where
  "diff xs = map2 fl_sub xs (shift1 xs)"

fun cumsum_from :: "fl \<Rightarrow> fl list \<Rightarrow> fl list" where
  "cumsum_from acc [] = []"
| "cumsum_from acc (x # xs) =
     (if isna x then NaN # cumsum_from acc xs
      else (let acc' = fl_add acc x in acc' # cumsum_from acc' xs))"

definition cumsum :: "fl list \<Rightarrow> fl list" where
  "cumsum xs = cumsum_from (Fin 0) xs"

text \<open>The frame returned by \<open>run_backtest\<close>, column by column.\<close>

record backtest_df =
  index :: "int list"
  spread :: "fl list"
  z :: "fl list"
  position :: "int list"
  spread_change :: "fl list"
  pnl :: "fl list"
  cumulative_pnl :: "fl list"

definition run_backtest :: "series \<Rightarrow> series \<Rightarrow> fl \<Rightarrow> backtest_df" where
  "run_backtest spread_s zscore entry_threshold =
     (let df = concat_axis1 spread_s zscore;
          spread_col = map (\<lambda>(t, a, b). a) df;
          z_col = map (\<lambda>(t, a, b). b) df;
          positions = positions_loop entry_threshold 0 z_col;
          spread_change_col = diff spread_col;
          pnl_col = map2 fl_mul (shift1 (map (\<lambda>p. Fin (of_int p)) positions)) spread_change_col
      in \<lparr> index = map fst df,
           spread = spread_col,
           z = z_col,
           position = positions,
           spread_change = spread_change_col,
           pnl = pnl_col,
           cumulative_pnl = cumsum pnl_col \<rparr>)"

text \<open>The number of rows of the frame.\<close>

definition len :: "backtest_df \<Rightarrow> nat" where
  "len df = length (index df)"

subsection \<open>The state machine of the specification\<close>

text \<open>
  The transition rules as the specification words them, on named states, to be compared
  with the loop of the source.
\<close>

datatype pos_state = Flat | Long | Short

fun spec_step :: "fl \<Rightarrow> pos_state \<Rightarrow> fl \<Rightarrow> pos_state" where
  "spec_step T Flat zv = (if fl_gt zv T then Short else if fl_lt zv (fl_neg T) then Long else Flat)"
| "spec_step T Short zv = (if fl_le zv (Fin 0) then Flat else Short)"
| "spec_step T Long zv = (if fl_ge zv (Fin 0) then Flat else Long)"

fun spec_run :: "fl \<Rightarrow> pos_state \<Rightarrow> fl list \<Rightarrow> pos_state list" where
  "spec_run T s [] = []"
| "spec_run T s (zv # zs) = spec_step T s zv # spec_run T (spec_step T s zv) zs"

fun encode :: "pos_state \<Rightarrow> int" where
  "encode Flat = 0"
| "encode Long = 1"
| "encode Short = - 1"

section \<open>Spread and signal engine\<close>

subsection \<open>\<open>calculate_spread\<close>\<close>

definition calculate_spread :: "series \<Rightarrow> series \<Rightarrow> fl \<Rightarrow> series" where
  "calculate_spread series_y series_x hedge_ratio =
     (let df = dropna (concat_axis1 series_y series_x)
      in if df = [] then []
         else map (\<lambda>(t, y, x). (t, fl_sub y (fl_mul hedge_ratio x))) df)"

subsection \<open>Rolling windows\<close>








subsection \<open>\<open>calculate_zscore\<close>\<close>


section \<open>Stationarity tester: \<open>perform_adf_test\<close>\<close>

text \<open>
  \<open>adfuller\<close> is the unit-root test of statsmodels. It is a parameter here: a function
  from the cleaned values to the first two components of its result (the statistic and
  the p-value), or \<open>None\<close> when it raises. The result \<open>None\<close> of \<open>perform_adf_test\<close>
  is the source's \<open>None\<close>.
\<close>

record adf_result =
  adf_stat :: fl
  p_value :: fl
  is_stationary :: bool

definition perform_adf_test ::
    "(fl list \<Rightarrow> (fl \<times> fl) option) \<Rightarrow> series \<Rightarrow> adf_result option" where
  "perform_adf_test adfuller spread_s =
     (let clean_spread = series_dropna spread_s
      in if length clean_spread < 20 then None
         else (case adfuller (values_of clean_spread) of
                 None \<Rightarrow> None
               | Some (stat, p) \<Rightarrow>
                   Some \<lparr> adf_stat = stat, p_value = p,
                          is_stationary = fl_lt p (Fin (5 / 100)) \<rparr>))"

section \<open>Hedge estimator: \<open>calculate_ols_hedge_ratio\<close>\<close>

text \<open>
  The two statsmodels calls, on exact numbers. A design matrix is the list of its
  columns.

  \<open>add_constant\<close> (with its default \<open>has_constant = 'skip'\<close>) puts a column of ones in
  front of the data, unless the data column is itself a non-zero constant: then the
  data is returned as it is, with one column.
\<close>

definition is_nonzero_const :: "fl list \<Rightarrow> bool" where
  "is_nonzero_const xs =
     (list_all is_finite xs \<and> list_all (\<lambda>x. x = hd xs) xs \<and> list_ex (\<lambda>x. x \<noteq> Fin 0) xs)"

definition add_constant :: "fl list \<Rightarrow> fl list list" where
  "add_constant xs =
     (if is_nonzero_const xs then [xs] else [replicate (length xs) (Fin 1), xs])"

definition dot :: "real list \<Rightarrow> real list \<Rightarrow> real" where
  "dot us vs = (\<Sum>(u, v)\<leftarrow>zip us vs. u * v)"

text \<open>
  \<open>OLS(Y, X).fit()\<close> computes the parameters as the product of the pseudo-inverse of \<open>X\<close>
  with \<open>Y\<close>. The pseudo-inverse has one row per column of \<open>X\<close>. For one column \<open>c\<close> the
  row is \<open>c / c\<cdot>c\<close> (zero for a zero column). For two columns with Gram matrix \<open>G\<close>: when
  \<open>det G \<noteq> 0\<close> the rows are those of \<open>G\<^sup>-\<^sup>1 X\<^sup>T\<close>; when \<open>det G = 0\<close> the matrix has rank at
  most one and the rows are those of \<open>X\<^sup>T / trace G\<close>. \<open>add_constant\<close> builds no other
  shape.
\<close>

fun pinv :: "real list list \<Rightarrow> real list list" where
  "pinv [c] = [map (\<lambda>a. if dot c c = 0 then 0 else a / dot c c) c]"
| "pinv [c1, c2] =
     (let g11 = dot c1 c1; g12 = dot c1 c2; g22 = dot c2 c2;
          det = g11 * g22 - g12 * g12
      in if det \<noteq> 0
         then [map2 (\<lambda>a b. (g22 * a - g12 * b) / det) c1 c2,
               map2 (\<lambda>a b. (g11 * b - g12 * a) / det) c1 c2]
         else if g11 + g22 = 0 then [map (\<lambda>a. 0) c1, map (\<lambda>b. 0) c2]
         else [map (\<lambda>a. a / (g11 + g22)) c1, map (\<lambda>b. b / (g11 + g22)) c2])"
| "pinv cs = []"

text \<open>
  The product of a row of the pseudo-inverse with the column \<open>Y\<close>, in float arithmetic:
  an infinity in \<open>Y\<close> gives an infinite or NaN parameter.
\<close>

definition fl_dot :: "real list \<Rightarrow> fl list \<Rightarrow> fl" where
  "fl_dot p ys = foldl fl_add (Fin 0) (map2 (\<lambda>a y. fl_mul (Fin a) y) p ys)"

text \<open>
  The parameters of the fit, or \<open>None\<close> when the call raises: statsmodels raises
  \<open>MissingDataError\<close> when the design holds an infinity. An infinity in \<open>Y\<close> is not
  rejected.
\<close>

definition OLS_fit_params :: "fl list \<Rightarrow> fl list list \<Rightarrow> fl list option" where
  "OLS_fit_params Y X =
     (if \<not> list_all (list_all is_finite) X then None
      else Some (map (\<lambda>p. fl_dot p Y) (pinv (map (map fin_val) X))))"

text \<open>\<open>params.iloc[i]\<close>: an index out of range raises \<open>IndexError\<close>.\<close>

definition iloc :: "'a list \<Rightarrow> nat \<Rightarrow> 'a option" where
  "iloc xs i = (if i < length xs then Some (xs ! i) else None)"

text \<open>
  The estimator. \<open>fit\<close> and \<open>params.iloc[1]\<close> are inside the \<open>try\<close>, so a raise of
  either gives 0.0.
\<close>

definition calculate_ols_hedge_ratio :: "series \<Rightarrow> series \<Rightarrow> fl" where
  "calculate_ols_hedge_ratio series_y series_x =
     (let df = dropna (concat_axis1 series_y series_x)
      in if df = [] \<or> length df < 5 then Fin 0
         else (let Y = map (\<lambda>(t, y, x). y) df;
                   X = add_constant (map (\<lambda>(t, y, x). x) df)
               in case OLS_fit_params Y X of
                    None \<Rightarrow> Fin 0
                  | Some params \<Rightarrow>
                      (case iloc params 1 of None \<Rightarrow> Fin 0 | Some beta \<Rightarrow> beta)))"


section \<open>Bar aggregator: \<open>load_data\<close>\<close>

text \<open>
  A tick is a row (timestamp, price) of the query result; timestamps are nanoseconds
  since the epoch, as \<open>pd.to_datetime\<close> makes them, and prices are the REAL numbers
  stored by the ingestion. The three resample frequencies are the ones the dashboard
  passes. They divide a day, so the bins of \<open>resample\<close> start at multiples of the
  frequency; a bin is closed on the left and labelled by its left edge.
\<close>

type_synonym tick = "int \<times> real"

datatype timeframe = OneSecond | OneMinute | FiveMinutes

fun freq_ns :: "timeframe \<Rightarrow> int" where
  "freq_ns OneSecond = 1000000000"
| "freq_ns OneMinute = 60000000000"
| "freq_ns FiveMinutes = 300000000000"

record bar =
  "open" :: real
  high :: real
  low :: real
  close :: real

definition bucket_start :: "int \<Rightarrow> int \<Rightarrow> int" where
  "bucket_start d t = (t div d) * d"

definition in_bucket :: "int \<Rightarrow> int \<Rightarrow> tick \<Rightarrow> bool" where
  "in_bucket d b tk = (b \<le> fst tk \<and> fst tk < b + d)"

text \<open>\<open>ohlc\<close> of the prices of one bin, in row order; a bin without a row gives NaN.\<close>

definition ohlc :: "real list \<Rightarrow> bar option" where
  "ohlc ps =
     (case ps of
        [] \<Rightarrow> None
      | p # ps' \<Rightarrow> Some \<lparr> open = p, high = fold max ps' p, low = fold min ps' p,
                          close = last (p # ps') \<rparr>)"

text \<open>
  \<open>resample(timeframe).ohlc()\<close> on a frame sorted by timestamp: one row for every bin
  from the bin of the first row to the bin of the last row.
\<close>

definition resample_ohlc :: "int \<Rightarrow> tick list \<Rightarrow> (int \<times> bar option) list" where
  "resample_ohlc d df =
     (if df = [] then []
      else (let first_bin = bucket_start d (fst (hd df));
                last_bin = bucket_start d (fst (last df))
            in map (\<lambda>k. (let b = first_bin + int k * d
                          in (b, ohlc (map snd (filter (in_bucket d b) df)))))
                   [0..<nat ((last_bin - first_bin) div d) + 1]))"

definition bars_dropna :: "(int \<times> bar option) list \<Rightarrow> (int \<times> bar) list" where
  "bars_dropna rs = List.map_filter (\<lambda>(b, r). map_option (\<lambda>v. (b, v)) r) rs"

text \<open>
  The body of \<open>load_data\<close> after the timestamps are parsed: sort by timestamp, resample,
  drop the bins without a trade. \<open>sort_values\<close> is a parameter: pandas sorts with an
  unstable quicksort, so the order of rows with equal timestamps is not fixed by the
  source.
\<close>

definition resample_bars ::
    "(tick list \<Rightarrow> tick list) \<Rightarrow> timeframe \<Rightarrow> tick list \<Rightarrow> (int \<times> bar) list" where
  "resample_bars sort_values tf df =
     bars_dropna (resample_ohlc (freq_ns tf) (sort_values df))"

text \<open>The frame of the query with its timestamp column replaced by the parsed instants.\<close>

definition parsed_ticks :: "int list \<Rightarrow> (string \<times> real) list \<Rightarrow> tick list" where
  "parsed_ticks ts df = zip ts (map snd df)"

text \<open>
  \<open>load_data\<close>. The whole body is inside \<open>try\<close>, and the \<open>except\<close> branch returns an
  empty frame: every step that can raise is a parameter whose \<open>None\<close> is a raise.
  \<open>read_sql\<close> is the query for the last \<open>limit\<close> ticks of \<open>symbol\<close>; its rows carry the
  timestamp as the text stored in the database. \<open>to_datetime\<close> parses the timestamp
  column as a whole. \<open>resample_accepts\<close> tells whether the installed pandas accepts the
  frequency alias.
\<close>

definition load_data ::
    "(string \<Rightarrow> nat \<Rightarrow> (string \<times> real) list option) \<Rightarrow> (string list \<Rightarrow> int list option)
      \<Rightarrow> (tick list \<Rightarrow> tick list) \<Rightarrow> (timeframe \<Rightarrow> bool)
      \<Rightarrow> string \<Rightarrow> timeframe \<Rightarrow> nat \<Rightarrow> (int \<times> bar) list" where
  "load_data read_sql to_datetime sort_values resample_accepts symbol timeframe limit =
     (case read_sql symbol limit of
        None \<Rightarrow> []
      | Some df \<Rightarrow>
          if df = [] then []
          else (case to_datetime (map fst df) of
                  None \<Rightarrow> []
                | Some ts \<Rightarrow>
                    if resample_accepts timeframe
                    then resample_bars sort_values timeframe (parsed_ticks ts df)
                    else []))"

section \<open>Pair aligner (dashboard)\<close>






section \<open>Auxiliary notions and sample data\<close>

text \<open>The position held before row \<open>i\<close>: flat before the first row.\<close>

definition prev_position :: "backtest_df \<Rightarrow> nat \<Rightarrow> int" where
  "prev_position df i = (if i = 0 then 0 else position df ! (i - 1))"

text \<open>The spread of the worked example of the specification, with a z-score column.\<close>

definition ex_spread :: series where
  "ex_spread = [(0, Fin 10), (1, Fin 12), (2, Fin 9), (3, Fin 9), (4, Fin 15)]"

definition ex_zscore :: series where
  "ex_zscore = [(0, Fin 0), (1, Fin (- 3)), (2, Fin (- 1)), (3, Fin 1), (4, Fin 3)]"

text \<open>Two aligned price series with \<open>Y = 2 X + 3\<close>.\<close>

definition ex_y :: series where
  "ex_y = [(0, Fin 5), (1, Fin 7), (2, Fin 9), (3, Fin 11), (4, Fin 13), (5, Fin 15)]"

definition ex_x :: series where
  "ex_x = [(0, Fin 1), (1, Fin 2), (2, Fin 3), (3, Fin 4), (4, Fin 5), (5, Fin 6)]"

text \<open>
  The window of row \<open>i\<close> as the specification words it: the values of the rows
  \<open>i-w+1 .. i\<close>, and whether all of them are finite.
\<close>

definition window_values :: "series \<Rightarrow> nat \<Rightarrow> nat \<Rightarrow> real list" where
  "window_values s w i = map (\<lambda>j. fin_val (values_of s ! j)) [Suc i - w..<Suc i]"



text \<open>
  Two kernels to compute with. They are exact, except that a squared deviation too small
  for a float64 (below \<open>1 / 2 ^ 1075\<close>) is zero, as the product is in float64.
\<close>

definition underflow :: "real \<Rightarrow> real" where
  "underflow x = (if \<bar>x\<bar> < 1 / 2 ^ 1075 then 0 else x)"







text \<open>
  A series of 25 rows, and two stand-ins for \<open>adfuller\<close>: one that raises and one
  that returns a given statistic and p-value.
\<close>

definition ex_long :: series where
  "ex_long = map (\<lambda>k. (int k, Fin (real k))) [0..<25]"

definition adfuller_raises :: "fl list \<Rightarrow> (fl \<times> fl) option" where
  "adfuller_raises xs = None"

definition adfuller_const :: "fl \<Rightarrow> fl \<Rightarrow> fl list \<Rightarrow> (fl \<times> fl) option" where
  "adfuller_const stat p xs = Some (stat, p)"

text \<open>The labels of the bins of \<open>resample\<close>: from the bin of the first row to the bin of the last.\<close>

definition bin_labels :: "int \<Rightarrow> tick list \<Rightarrow> int list" where
  "bin_labels d df =
     map (\<lambda>k. bucket_start d (fst (hd df)) + int k * d)
         [0..<nat ((bucket_start d (fst (last df)) - bucket_start d (fst (hd df))) div d) + 1]"

text \<open>
  Stand-ins for the parameters of \<open>load_data\<close>. The ingestion stores a timestamp as
  text with six digits of microseconds, and without them when the microsecond is zero.
  \<open>to_datetime_inferred\<close> takes the format of the first row for the whole column, as
  pandas 2 and later do, and raises when a row has another format; \<open>ex_parse\<close> gives the
  instants of the sample rows in nanoseconds.
\<close>

definition to_datetime_inferred :: "(string \<Rightarrow> int) \<Rightarrow> string list \<Rightarrow> int list option" where
  "to_datetime_inferred parse raws =
     (if list_all (\<lambda>r. length r = length (hd raws)) raws then Some (map parse raws) else None)"

definition ex_parse :: "string \<Rightarrow> int" where
  "ex_parse r =
     (if r = ''1970-01-01 00:00:02.500000'' then 2500000000
      else if r = ''1970-01-01 00:00:01'' then 1000000000
      else if r = ''1970-01-01 00:00:00.700000'' then 700000000
      else if r = ''1970-01-01 00:00:00.200000'' then 200000000
      else 0)"

definition accepts_all :: "timeframe \<Rightarrow> bool" where
  "accepts_all tf = True"

definition accepts_none :: "timeframe \<Rightarrow> bool" where
  "accepts_none tf = False"

text \<open>
  Three rows as the query returns them (latest first), their parsed ticks, and the
  one-second bars they give: the second between them has no tick and no bar.
\<close>

definition ex_rows :: "(string \<times> real) list" where
  "ex_rows = [(''1970-01-01 00:00:02.500000'', 12), (''1970-01-01 00:00:00.700000'', 11),
              (''1970-01-01 00:00:00.200000'', 10)]"

definition ex_read_sql :: "string \<Rightarrow> nat \<Rightarrow> (string \<times> real) list option" where
  "ex_read_sql symbol limit = Some ex_rows"

definition ex_ticks :: "tick list" where
  "ex_ticks = [(2500000000, 12), (700000000, 11), (200000000, 10)]"

text \<open>Rows of which one was traded on a full second, so that its text has no microseconds.\<close>

definition ex_rows_mixed :: "(string \<times> real) list" where
  "ex_rows_mixed = [(''1970-01-01 00:00:02.500000'', 12), (''1970-01-01 00:00:01'', 11),
                    (''1970-01-01 00:00:00.200000'', 10)]"

definition ex_read_sql_mixed :: "string \<Rightarrow> nat \<Rightarrow> (string \<times> real) list option" where
  "ex_read_sql_mixed symbol limit = Some ex_rows_mixed"

definition read_sql_empty :: "string \<Rightarrow> nat \<Rightarrow> (string \<times> real) list option" where
  "read_sql_empty symbol limit = Some []"

definition read_sql_raises :: "string \<Rightarrow> nat \<Rightarrow> (string \<times> real) list option" where
  "read_sql_raises symbol limit = None"

definition ex_bars :: "(int \<times> bar) list" where
  "ex_bars = [(0, \<lparr> open = 10, high = 11, low = 10, close = 11 \<rparr>),
              (2000000000, \<lparr> open = 12, high = 12, low = 12, close = 12 \<rparr>)]"





text \<open>An infinite value in \<open>Y\<close>: the slope is infinite.\<close>

definition ex_inf_y :: series where
  "ex_inf_y = [(0, Fin 5), (1, Fin 7), (2, Fin 9), (3, Fin 11), (4, Fin 13), (5, PInf)]"



text \<open>
  The valid paired observations of two series (after alignment and \<open>dropna\<close>), their
  two columns as numbers, and whether all of them are finite.
\<close>

definition paired_obs :: "series \<Rightarrow> series \<Rightarrow> (int \<times> fl \<times> fl) list" where
  "paired_obs series_y series_x = dropna (concat_axis1 series_y series_x)"

definition obs_y :: "series \<Rightarrow> series \<Rightarrow> real list" where
  "obs_y series_y series_x = map (\<lambda>(t, y, x). fin_val y) (paired_obs series_y series_x)"

definition obs_x :: "series \<Rightarrow> series \<Rightarrow> real list" where
  "obs_x series_y series_x = map (\<lambda>(t, y, x). fin_val x) (paired_obs series_y series_x)"




text \<open>
  The number of finite values of a series, and a series of 20 rows whose last value is
  infinite: 19 finite values, 20 values that are not NaN.
\<close>

definition count_finite :: "series \<Rightarrow> nat" where
  "count_finite s = length (filter is_finite (values_of s))"

definition ex_long_inf :: series where
  "ex_long_inf = map (\<lambda>k. (int k, Fin (real k))) [0..<19] @ [(19, PInf)]"

section \<open>Properties of the backtest simulator\<close>

subsection \<open>Columns and lengths\<close>

lemma length_positions_loop [simp]: "length (positions_loop T c zs) = length zs"
  by (induction zs arbitrary: c) (simp_all add: Let_def)

lemma length_shift1 [simp]: "length (shift1 xs) = length xs"
  by (cases xs) (simp_all add: shift1_def)

lemma length_diff [simp]: "length (diff xs) = length xs"
  by (simp add: diff_def)

lemma length_cumsum_from [simp]: "length (cumsum_from a xs) = length xs"
  by (induction xs arbitrary: a) (simp_all add: Let_def)

lemma concat_axis1_same_index:
  assumes "index_of sa = index_of sb"
  shows "map fst (concat_axis1 sa sb) = index_of sa"
    and "map (\<lambda>(t, a, b). a) (concat_axis1 sa sb) = values_of sa"
    and "map (\<lambda>(t, a, b). b) (concat_axis1 sa sb) = values_of sb"
proof -
  have len: "length sa = length sb"
    using assms by (metis index_of_def length_map)
  have eq: "concat_axis1 sa sb = map2 (\<lambda>(t, a) (_, b). (t, a, b)) sa sb"
    using assms by (simp add: concat_axis1_def)
  from len show "map fst (concat_axis1 sa sb) = index_of sa"
    unfolding eq index_of_def by (induction sa sb rule: list_induct2) auto
  from len show "map (\<lambda>(t, a, b). a) (concat_axis1 sa sb) = values_of sa"
    unfolding eq values_of_def by (induction sa sb rule: list_induct2) auto
  from len show "map (\<lambda>(t, a, b). b) (concat_axis1 sa sb) = values_of sb"
    unfolding eq values_of_def by (induction sa sb rule: list_induct2) auto
qed

lemma run_backtest_lengths:
  "length (spread (run_backtest s zs T)) = len (run_backtest s zs T)"
  "length (z (run_backtest s zs T)) = len (run_backtest s zs T)"
  "length (position (run_backtest s zs T)) = len (run_backtest s zs T)"
  "length (spread_change (run_backtest s zs T)) = len (run_backtest s zs T)"
  "length (pnl (run_backtest s zs T)) = len (run_backtest s zs T)"
  "length (cumulative_pnl (run_backtest s zs T)) = len (run_backtest s zs T)"
  by (simp_all add: run_backtest_def len_def Let_def cumsum_def)

lemma run_backtest_same_index:
  assumes "index_of s = index_of zs"
  shows "index (run_backtest s zs T) = index_of s"
    and "spread (run_backtest s zs T) = values_of s"
    and "z (run_backtest s zs T) = values_of zs"
  by (simp_all add: run_backtest_def Let_def concat_axis1_same_index [OF assms])

text \<open>The frame computed for the sample data.\<close>

lemma ex_backtest:
  "run_backtest ex_spread ex_zscore (Fin 2) =
     \<lparr> index = [0, 1, 2, 3, 4],
       spread = [Fin 10, Fin 12, Fin 9, Fin 9, Fin 15],
       z = [Fin 0, Fin (- 3), Fin (- 1), Fin 1, Fin 3],
       position = [0, 1, 1, 0, - 1],
       spread_change = [NaN, Fin 2, Fin (- 3), Fin 0, Fin 6],
       pnl = [NaN, Fin 0, Fin (- 3), Fin 0, Fin 0],
       cumulative_pnl = [NaN, Fin 0, Fin (- 3), Fin (- 3), Fin (- 3)] \<rparr>"
  by (simp add: run_backtest_def ex_spread_def ex_zscore_def concat_axis1_def index_of_def
      Let_def backtest_step_def fl_gt_def fl_ge_def diff_def shift1_def fl_sub_def
      cumsum_def isna_def)

lemma ex_index: "index_of ex_spread = index_of ex_zscore"
  by (simp add: ex_spread_def ex_zscore_def index_of_def)

subsection \<open>The loop refines the state machine\<close>

lemma positions_loop_spec:
  "positions_loop T (encode s) zs = map encode (spec_run T s zs)"
proof (induction zs arbitrary: s)
  case Nil
  show ?case by simp
next
  case (Cons zv zs)
  have step: "backtest_step T (encode s) zv = encode (spec_step T s zv)"
    by (cases s) (simp_all add: backtest_step_def)
  show ?case
    using Cons.IH [of "spec_step T s zv"] by (simp add: step Let_def)
qed

text \<open>
  Claim C3. For every z-score sequence and every threshold \<open>T\<close> (positive or not), the
  position column of the backtest is the run of the specification's state machine from
  \<open>Flat\<close> over the z column of the frame, one step per row, with \<open>Long = 1\<close>,
  \<open>Short = -1\<close> and \<open>Flat = 0\<close>; the position of row \<open>i\<close> is the state after the rule of
  row \<open>i\<close>. When the spread and the z-score have the same index, the z column is the given
  z-score sequence.
\<close>

theorem backtest_positions_refine_state_machine:
  "position (run_backtest spread_s zscore T) =
     map encode (spec_run T Flat (z (run_backtest spread_s zscore T)))
   \<and> (index_of spread_s = index_of zscore \<longrightarrow>
        z (run_backtest spread_s zscore T) = values_of zscore)"
  using positions_loop_spec [of T Flat]
  by (simp add: run_backtest_def Let_def concat_axis1_same_index)

theorem backtest_positions_refine_state_machine_witness:
  "index_of ex_spread = index_of ex_zscore
   \<and> z (run_backtest ex_spread ex_zscore (Fin 2)) = values_of ex_zscore
   \<and> map encode (spec_run (Fin 2) Flat (values_of ex_zscore)) = [0, 1, 1, 0, - 1]"
proof -
  from backtest_positions_refine_state_machine [of ex_spread ex_zscore "Fin 2"] ex_index
  have zc: "z (run_backtest ex_spread ex_zscore (Fin 2)) = values_of ex_zscore"
    and ps: "position (run_backtest ex_spread ex_zscore (Fin 2)) =
       map encode (spec_run (Fin 2) Flat (z (run_backtest ex_spread ex_zscore (Fin 2))))"
    by blast+
  have "position (run_backtest ex_spread ex_zscore (Fin 2)) = [0, 1, 1, 0, - 1]"
    by (simp add: ex_backtest)
  with ps zc ex_index show ?thesis by simp
qed

subsection \<open>Rows and positions\<close>

lemma backtest_step_range:
  "c \<in> {- 1, 0, 1} \<Longrightarrow> backtest_step T c zv \<in> {- 1, 0, 1}"
  by (auto simp: backtest_step_def)

lemma backtest_step_no_flip:
  "c = 0 \<or> backtest_step T c zv = 0 \<or> backtest_step T c zv = c"
  by (auto simp: backtest_step_def)

lemma positions_loop_range:
  "c \<in> {- 1, 0, 1} \<Longrightarrow> set (positions_loop T c zs) \<subseteq> {- 1, 0, 1}"
proof (induction zs arbitrary: c)
  case Nil
  show ?case by simp
next
  case (Cons zv zs)
  have "backtest_step T c zv \<in> {- 1, 0, 1}"
    using Cons.prems by (rule backtest_step_range)
  from Cons.IH [OF this] this show ?case by (simp add: Let_def)
qed

lemma positions_loop_nth:
  "i < length zs \<Longrightarrow>
     positions_loop T c zs ! i =
       backtest_step T (if i = 0 then c else positions_loop T c zs ! (i - 1)) (zs ! i)"
proof (induction zs arbitrary: c i)
  case Nil
  then show ?case by simp
next
  case (Cons zv zs)
  show ?case
  proof (cases i)
    case 0
    then show ?thesis by (simp add: Let_def)
  next
    case (Suc j)
    with Cons.prems have j: "j < length zs" by simp
    show ?thesis
      using Cons.IH [OF j, of "backtest_step T c zv"] Suc
      by (cases j) (simp_all add: Let_def)
  qed
qed

text \<open>
  Claim C10. For every spread series, z-score series and threshold, every column of the
  backtest frame has one entry per row of the frame, and the frame has one row per input
  timestep when the two inputs share their index. Every position is -1, 0 or 1. Each row
  applies the loop body once to the position of the previous row (flat before the first
  row), and the position it leaves differs from the previous one only by an entry from
  flat or by an exit to flat: no row goes from long to short or from short to long.
\<close>

theorem backtest_rows_and_positions:
  "length (position (run_backtest s zs T)) = len (run_backtest s zs T)
 \<and> length (pnl (run_backtest s zs T)) = len (run_backtest s zs T)
 \<and> length (cumulative_pnl (run_backtest s zs T)) = len (run_backtest s zs T)
 \<and> (index_of s = index_of zs \<longrightarrow> len (run_backtest s zs T) = length s)
 \<and> (\<forall>p \<in> set (position (run_backtest s zs T)). p = - 1 \<or> p = 0 \<or> p = 1)
 \<and> (\<forall>i. i < len (run_backtest s zs T) \<longrightarrow>
       position (run_backtest s zs T) ! i =
         backtest_step T (prev_position (run_backtest s zs T) i) (z (run_backtest s zs T) ! i)
     \<and> (prev_position (run_backtest s zs T) i = 0
          \<or> position (run_backtest s zs T) ! i = 0
          \<or> position (run_backtest s zs T) ! i = prev_position (run_backtest s zs T) i))"
proof -
  let ?df = "run_backtest s zs T"
  have pos: "position ?df = positions_loop T 0 (z ?df)"
    by (simp add: run_backtest_def Let_def)
  have rng: "\<forall>p \<in> set (position ?df). p = - 1 \<or> p = 0 \<or> p = 1"
    using positions_loop_range [of 0 T "z ?df"] unfolding pos by auto
  have rows: "len ?df = length s" if eq: "index_of s = index_of zs"
    using run_backtest_same_index(1) [OF eq, of T] by (simp add: len_def index_of_def)
  have st: "i < len ?df \<Longrightarrow>
      position ?df ! i = backtest_step T (prev_position ?df i) (z ?df ! i)" for i
    using positions_loop_nth [of i "z ?df" T 0]
    by (simp add: prev_position_def run_backtest_lengths flip: pos)
  have nf: "i < len ?df \<Longrightarrow>
      prev_position ?df i = 0 \<or> position ?df ! i = 0
        \<or> position ?df ! i = prev_position ?df i" for i
    using st [of i] backtest_step_no_flip [of "prev_position ?df i" T "z ?df ! i"] by simp
  show ?thesis
    using rng rows st nf by (simp add: run_backtest_lengths)
qed

theorem backtest_rows_and_positions_witness:
  "index_of ex_spread = index_of ex_zscore
   \<and> len (run_backtest ex_spread ex_zscore (Fin 2)) = length ex_spread
   \<and> (4::nat) < len (run_backtest ex_spread ex_zscore (Fin 2))
   \<and> (1::int) \<in> set (position (run_backtest ex_spread ex_zscore (Fin 2)))
   \<and> position (run_backtest ex_spread ex_zscore (Fin 2)) ! 4 =
       backtest_step (Fin 2) 0 (Fin 3)
   \<and> prev_position (run_backtest ex_spread ex_zscore (Fin 2)) 4 = 0"
proof -
  let ?df = "run_backtest ex_spread ex_zscore (Fin 2)"
  note th = backtest_rows_and_positions [of ex_spread ex_zscore "Fin 2"]
  have rows: "len ?df = length ex_spread"
    using th ex_index by blast
  have i4: "4 < len ?df"
    by (simp add: ex_backtest len_def)
  have m: "(1::int) \<in> set (position ?df)"
    by (simp add: ex_backtest)
  have pv: "prev_position ?df 4 = 0"
    by (simp add: ex_backtest prev_position_def)
  have z4: "z ?df ! 4 = Fin 3"
    by (simp add: ex_backtest)
  from th i4 have "position ?df ! 4 = backtest_step (Fin 2) (prev_position ?df 4) (z ?df ! 4)"
    by blast
  then have "position ?df ! 4 = backtest_step (Fin 2) 0 (Fin 3)"
    by (simp only: pv z4)
  with ex_index rows i4 m pv show ?thesis by blast
qed

subsection \<open>Lagged profit and loss\<close>

lemma shift1_nth:
  "i < length xs \<Longrightarrow> shift1 xs ! i = (if i = 0 then NaN else xs ! (i - 1))"
  by (cases xs) (auto simp: shift1_def nth_Cons' nth_butlast)

lemma fl_sub_NaN [simp]: "fl_sub a NaN = NaN"
  by (cases a) (simp_all add: fl_sub_def)

lemma fl_add_zero_left [simp]: "fl_add (Fin 0) a = a"
  by (cases a) simp_all

lemma diff_nth:
  "i < length xs \<Longrightarrow>
     diff xs ! i = (if i = 0 then NaN else fl_sub (xs ! i) (xs ! (i - 1)))"
  by (simp add: diff_def shift1_nth)

lemma cumsum_from_nth:
  "i < length xs \<Longrightarrow>
     cumsum_from a xs ! i =
       (if isna (xs ! i) then NaN
        else foldl fl_add a (filter (\<lambda>v. \<not> isna v) (take (Suc i) xs)))"
proof (induction xs arbitrary: a i)
  case Nil
  then show ?case by simp
next
  case (Cons x xs)
  show ?case
  proof (cases i)
    case 0
    then show ?thesis by (simp add: Let_def)
  next
    case (Suc j)
    with Cons.prems have j: "j < length xs" by simp
    show ?thesis using Cons.IH [OF j] Suc by (simp add: Let_def)
  qed
qed

lemma cumsum_from_step:
  assumes "Suc j < length xs" and "\<not> isna (xs ! j)" and "\<not> isna (xs ! Suc j)"
  shows "cumsum_from a xs ! Suc j = fl_add (cumsum_from a xs ! j) (xs ! Suc j)"
proof -
  have j: "j < length xs" using assms(1) by simp
  have tk: "take (Suc (Suc j)) xs = take (Suc j) xs @ [xs ! Suc j]"
    using assms(1) by (rule take_Suc_conv_app_nth)
  show ?thesis
    using assms(2,3)
    by (simp add: cumsum_from_nth [OF assms(1)] cumsum_from_nth [OF j] tk
        del: take_Suc_conv_app_nth)
qed

lemma pnl_nth:
  assumes "i < len (run_backtest s zs T)"
  shows "pnl (run_backtest s zs T) ! i =
     (if i = 0 then NaN
      else fl_mul (Fin (of_int (position (run_backtest s zs T) ! (i - 1))))
             (fl_sub (spread (run_backtest s zs T) ! i)
                     (spread (run_backtest s zs T) ! (i - 1))))"
  using assms
  by (simp add: run_backtest_def len_def Let_def shift1_nth diff_nth)

text \<open>
  The first row of the sample frame: its profit and loss and its cumulative profit and
  loss are NaN, not 0.
\<close>

theorem backtest_first_pnl_is_nan:
  "pnl (run_backtest ex_spread ex_zscore (Fin 2)) ! 0 = NaN
   \<and> pnl (run_backtest ex_spread ex_zscore (Fin 2)) ! 0 \<noteq> Fin 0
   \<and> cumulative_pnl (run_backtest ex_spread ex_zscore (Fin 2)) ! 0 \<noteq> Fin 0
   \<and> cumulative_pnl (run_backtest ex_spread ex_zscore (Fin 2)) ! 1
       \<noteq> fl_add (cumulative_pnl (run_backtest ex_spread ex_zscore (Fin 2)) ! 0)
                (pnl (run_backtest ex_spread ex_zscore (Fin 2)) ! 1)"
  by (simp add: ex_backtest)

text \<open>
  Claim C1, amended. For every spread series and z-score series, the profit and loss is
  lagged from the second row on: \<open>pnl[i] = position[i-1] * (spread[i] - spread[i-1])\<close>
  for every \<open>i \<ge> 1\<close>. In the first row \<open>pnl[0]\<close> and \<open>cumulative_pnl[0]\<close> are NaN.
  \<open>cumulative_pnl[i]\<close> is NaN where \<open>pnl[i]\<close> is NaN and otherwise the sum of the
  values of \<open>pnl[0..i]\<close> that are not NaN; so \<open>cumulative_pnl[1] = pnl[1]\<close>, and
  \<open>cumulative_pnl[i] = cumulative_pnl[i-1] + pnl[i]\<close> for every \<open>i \<ge> 2\<close> with \<open>pnl[i-1]\<close>
  and \<open>pnl[i]\<close> not NaN.
\<close>

theorem backtest_pnl_lagged:
  "(0 < len (run_backtest s zs T) \<longrightarrow>
      pnl (run_backtest s zs T) ! 0 = NaN \<and> cumulative_pnl (run_backtest s zs T) ! 0 = NaN)
 \<and> (\<forall>i. 1 \<le> i \<and> i < len (run_backtest s zs T) \<longrightarrow>
      pnl (run_backtest s zs T) ! i =
        fl_mul (Fin (of_int (position (run_backtest s zs T) ! (i - 1))))
          (fl_sub (spread (run_backtest s zs T) ! i) (spread (run_backtest s zs T) ! (i - 1))))
 \<and> (\<forall>i. i < len (run_backtest s zs T) \<longrightarrow>
      cumulative_pnl (run_backtest s zs T) ! i =
        (if isna (pnl (run_backtest s zs T) ! i) then NaN
         else foldl fl_add (Fin 0)
                (filter (\<lambda>v. \<not> isna v) (take (Suc i) (pnl (run_backtest s zs T))))))
 \<and> (1 < len (run_backtest s zs T) \<longrightarrow>
      cumulative_pnl (run_backtest s zs T) ! 1 = pnl (run_backtest s zs T) ! 1)
 \<and> (\<forall>i. 2 \<le> i \<and> i < len (run_backtest s zs T)
        \<and> \<not> isna (pnl (run_backtest s zs T) ! (i - 1))
        \<and> \<not> isna (pnl (run_backtest s zs T) ! i) \<longrightarrow>
      cumulative_pnl (run_backtest s zs T) ! i =
        fl_add (cumulative_pnl (run_backtest s zs T) ! (i - 1)) (pnl (run_backtest s zs T) ! i))"
proof -
  let ?df = "run_backtest s zs T"
  have cum: "cumulative_pnl ?df = cumsum_from (Fin 0) (pnl ?df)"
    by (simp add: run_backtest_def Let_def cumsum_def)
  have lp: "length (pnl ?df) = len ?df"
    by (rule run_backtest_lengths)
  have c: "i < len ?df \<Longrightarrow> cumulative_pnl ?df ! i =
        (if isna (pnl ?df ! i) then NaN
         else foldl fl_add (Fin 0) (filter (\<lambda>v. \<not> isna v) (take (Suc i) (pnl ?df))))" for i
    unfolding cum by (rule cumsum_from_nth) (simp add: lp)
  have a: "0 < len ?df \<Longrightarrow> pnl ?df ! 0 = NaN"
    using pnl_nth [of 0 s zs T] by simp
  have a': "0 < len ?df \<Longrightarrow> cumulative_pnl ?df ! 0 = NaN"
    using c [of 0] a by (simp add: isna_def)
  have b: "1 \<le> i \<Longrightarrow> i < len ?df \<Longrightarrow> pnl ?df ! i =
        fl_mul (Fin (of_int (position ?df ! (i - 1))))
          (fl_sub (spread ?df ! i) (spread ?df ! (i - 1)))" for i
    using pnl_nth [of i s zs T] by simp
  have d: "cumulative_pnl ?df ! 1 = pnl ?df ! 1" if l: "1 < len ?df"
  proof -
    have l': "Suc 0 < length (pnl ?df)" using l lp by simp
    have p0: "pnl ?df ! 0 = NaN" using a l by simp
    have tk: "take (Suc (Suc 0)) (pnl ?df) = [pnl ?df ! 0, pnl ?df ! Suc 0]"
      using l' by (cases "pnl ?df"; cases "tl (pnl ?df)") auto
    have "cumsum_from (Fin 0) (pnl ?df) ! Suc 0 = pnl ?df ! Suc 0"
      unfolding cumsum_from_nth [OF l'] tk by (simp add: p0 isna_def)
    then show ?thesis by (simp add: cum)
  qed
  have e: "cumulative_pnl ?df ! i = fl_add (cumulative_pnl ?df ! (i - 1)) (pnl ?df ! i)"
    if "2 \<le> i" "i < len ?df" "\<not> isna (pnl ?df ! (i - 1))" "\<not> isna (pnl ?df ! i)" for i
  proof -
    from that(1) have "0 < i" by simp
    then obtain j where j: "i = Suc j" by (auto simp: gr0_conv_Suc)
    show ?thesis
      using cumsum_from_step [of j "pnl ?df" "Fin 0"] that unfolding cum j by (simp add: lp)
  qed
  show ?thesis using a a' b c d e by blast
qed

theorem backtest_pnl_lagged_witness:
  "(2::nat) < len (run_backtest ex_spread ex_zscore (Fin 2))
   \<and> \<not> isna (pnl (run_backtest ex_spread ex_zscore (Fin 2)) ! 1)
   \<and> \<not> isna (pnl (run_backtest ex_spread ex_zscore (Fin 2)) ! 2)
   \<and> pnl (run_backtest ex_spread ex_zscore (Fin 2)) ! 0 = NaN
   \<and> cumulative_pnl (run_backtest ex_spread ex_zscore (Fin 2)) ! 0 = NaN
   \<and> pnl (run_backtest ex_spread ex_zscore (Fin 2)) ! 2 =
        fl_mul (Fin (of_int (position (run_backtest ex_spread ex_zscore (Fin 2)) ! 1)))
          (fl_sub (spread (run_backtest ex_spread ex_zscore (Fin 2)) ! 2)
                  (spread (run_backtest ex_spread ex_zscore (Fin 2)) ! 1))
   \<and> cumulative_pnl (run_backtest ex_spread ex_zscore (Fin 2)) ! 1 =
        pnl (run_backtest ex_spread ex_zscore (Fin 2)) ! 1
   \<and> cumulative_pnl (run_backtest ex_spread ex_zscore (Fin 2)) ! 2 =
        fl_add (cumulative_pnl (run_backtest ex_spread ex_zscore (Fin 2)) ! 1)
               (pnl (run_backtest ex_spread ex_zscore (Fin 2)) ! 2)"
proof -
  let ?df = "run_backtest ex_spread ex_zscore (Fin 2)"
  note th = backtest_pnl_lagged [of ex_spread ex_zscore "Fin 2"]
  have l: "2 < len ?df" "1 < len ?df" "0 < len ?df"
    by (simp_all add: ex_backtest len_def)
  have n: "\<not> isna (pnl ?df ! 1)" "\<not> isna (pnl ?df ! 2)"
    by (simp_all add: ex_backtest isna_def)
  have i2: "(2::nat) - 1 = 1" "(1::nat) \<le> 2" "(2::nat) \<le> 2"
    by simp_all
  from th l(3) have r0: "pnl ?df ! 0 = NaN" "cumulative_pnl ?df ! 0 = NaN"
    by blast+
  from th l(1) i2(2) have "pnl ?df ! 2 =
      fl_mul (Fin (of_int (position ?df ! (2 - 1)))) (fl_sub (spread ?df ! 2) (spread ?df ! (2 - 1)))"
    by blast
  then have r2: "pnl ?df ! 2 =
      fl_mul (Fin (of_int (position ?df ! 1))) (fl_sub (spread ?df ! 2) (spread ?df ! 1))"
    by (simp only: i2)
  from th l(2) have r1: "cumulative_pnl ?df ! 1 = pnl ?df ! 1"
    by blast
  have n': "\<not> isna (pnl ?df ! (2 - 1))"
    using n(1) by simp
  from th l(1) i2(3) n' n(2) have "cumulative_pnl ?df ! 2 =
      fl_add (cumulative_pnl ?df ! (2 - 1)) (pnl ?df ! 2)"
    by blast
  then have r3: "cumulative_pnl ?df ! 2 = fl_add (cumulative_pnl ?df ! 1) (pnl ?df ! 2)"
    by (simp only: i2)
  from l(1) n r0 r2 r1 r3 show ?thesis by blast
qed

section \<open>Alignment of two series\<close>

lemma at_label_Some:
  "distinct (index_of s) \<Longrightarrow> (t, v) \<in> set s \<Longrightarrow> at_label s t = v"
  by (simp add: at_label_def index_of_def)

lemma at_label_None:
  assumes "t \<notin> set (index_of s)"
  shows "at_label s t = NaN"
proof -
  have "map_of s t = None"
    using assms by (simp add: map_of_eq_None_iff index_of_def)
  then show ?thesis by (simp add: at_label_def)
qed

lemma at_label_nth:
  assumes "distinct (index_of s)" and "i < length s"
  shows "at_label s (fst (s ! i)) = snd (s ! i)"
proof -
  have "(fst (s ! i), snd (s ! i)) \<in> set s"
    using assms(2) by simp
  then show ?thesis by (rule at_label_Some [OF assms(1)])
qed

lemma set_union_index: "set (union_index a b) = set a \<union> set b"
  by (auto simp: union_index_def)

lemma concat_axis1_zip_nth:
  assumes ix: "index_of sa = index_of sb" and i: "i < length sa"
  shows "concat_axis1 sa sb ! i = (fst (sa ! i), snd (sa ! i), snd (sb ! i))"
    and "length (concat_axis1 sa sb) = length sa"
    and "fst (sb ! i) = fst (sa ! i)"
proof -
  have len: "length sa = length sb"
    using ix by (metis index_of_def length_map)
  have eq: "concat_axis1 sa sb = map2 (\<lambda>(t, a) (_, b). (t, a, b)) sa sb"
    using ix by (simp add: concat_axis1_def)
  show "concat_axis1 sa sb ! i = (fst (sa ! i), snd (sa ! i), snd (sb ! i))"
    unfolding eq using i len by (simp add: case_prod_beta)
  show "length (concat_axis1 sa sb) = length sa"
    unfolding eq using len by simp
  have "map fst sb ! i = map fst sa ! i"
    using ix by (simp add: index_of_def)
  then show "fst (sb ! i) = fst (sa ! i)"
    using i len by simp
qed

lemma concat_axis1_as_map:
  assumes da: "distinct (index_of sa)" and db: "distinct (index_of sb)"
  shows "concat_axis1 sa sb =
     map (\<lambda>t. (t, at_label sa t, at_label sb t)) (union_index (index_of sa) (index_of sb))"
proof (cases "index_of sa = index_of sb")
  case False
  then show ?thesis by (simp add: concat_axis1_def)
next
  case True
  then have len: "length sa = length sb"
    by (metis index_of_def length_map)
  have ui: "union_index (index_of sa) (index_of sb) = index_of sa"
    using True by (simp add: union_index_def)
  show ?thesis
    unfolding ui
  proof (rule nth_equalityI)
    show "length (concat_axis1 sa sb) =
        length (map (\<lambda>t. (t, at_label sa t, at_label sb t)) (index_of sa))"
    proof (cases sa)
      case Nil
      then show ?thesis using len by (simp add: concat_axis1_def index_of_def)
    next
      case (Cons a list)
      then have "0 < length sa" by simp
      from concat_axis1_zip_nth(2) [OF True this] show ?thesis
        by (simp add: index_of_def)
    qed
  next
    fix i assume "i < length (concat_axis1 sa sb)"
    then have i: "i < length sa"
      using concat_axis1_zip_nth(2) [OF True, of i] by (cases "i < length sa") (auto simp: concat_axis1_def True len)
    have b: "at_label sb (fst (sa ! i)) = snd (sb ! i)"
      using at_label_nth [OF db, of i] i len concat_axis1_zip_nth(3) [OF True i] by simp
    show "concat_axis1 sa sb ! i =
        map (\<lambda>t. (t, at_label sa t, at_label sb t)) (index_of sa) ! i"
      using i by (simp add: concat_axis1_zip_nth(1) [OF True i] index_of_def
          at_label_nth [OF da i] b)
  qed
qed

lemma calculate_spread_rows:
  "calculate_spread sy sx beta =
     map (\<lambda>(t, y, x). (t, fl_sub y (fl_mul beta x))) (dropna (concat_axis1 sy sx))"
  by (simp add: calculate_spread_def Let_def)

lemma dropna_all:
  "\<forall>r \<in> set df. \<not> isna (fst (snd r)) \<and> \<not> isna (snd (snd r)) \<Longrightarrow> dropna df = df"
  by (simp add: dropna_def case_prod_beta)

section \<open>Properties of the spread\<close>

lemma spread_empty:
  assumes "sy = [] \<or> sx = []"
  shows "calculate_spread sy sx beta = []"
proof (cases "index_of sy = index_of sx")
  case True
  with assms have "sy = [] \<and> sx = []" by (auto simp: index_of_def)
  then show ?thesis
    by (simp add: calculate_spread_def concat_axis1_def index_of_def dropna_def)
next
  case False
  have "isna (at_label sy t) \<or> isna (at_label sx t)" for t
    using assms by (auto simp: at_label_def isna_def)
  then have "dropna (concat_axis1 sy sx) = []"
    using False by (auto simp: concat_axis1_def dropna_def filter_empty_conv)
  then show ?thesis by (simp add: calculate_spread_def)
qed

lemma spread_aligned:
  assumes ix: "index_of sy = index_of sx"
    and nn: "\<forall>v \<in> set (values_of sy) \<union> set (values_of sx). \<not> isna v"
  shows "length (calculate_spread sy sx beta) = length sy"
    and "i < length sy \<Longrightarrow> calculate_spread sy sx beta ! i =
              (fst (sy ! i), fl_sub (snd (sy ! i)) (fl_mul beta (snd (sx ! i))))"
proof -
  have len: "length sy = length sx"
    using ix by (metis index_of_def length_map)
  have lc: "length (concat_axis1 sy sx) = length sy"
    using ix len by (simp add: concat_axis1_def)
  have "\<forall>r \<in> set (concat_axis1 sy sx). \<not> isna (fst (snd r)) \<and> \<not> isna (snd (snd r))"
  proof
    fix r assume "r \<in> set (concat_axis1 sy sx)"
    then obtain j where j: "j < length sy" and r: "r = concat_axis1 sy sx ! j"
      using lc by (auto simp: in_set_conv_nth)
    have "snd (sy ! j) \<in> set (values_of sy)" "snd (sx ! j) \<in> set (values_of sx)"
      using j len by (simp_all add: values_of_def)
    then show "\<not> isna (fst (snd r)) \<and> \<not> isna (snd (snd r))"
      using nn by (simp add: r concat_axis1_zip_nth(1) [OF ix j])
  qed
  then have dn: "dropna (concat_axis1 sy sx) = concat_axis1 sy sx"
    by (rule dropna_all)
  show "length (calculate_spread sy sx beta) = length sy"
    by (simp add: calculate_spread_rows dn lc)
  show "calculate_spread sy sx beta ! i =
      (fst (sy ! i), fl_sub (snd (sy ! i)) (fl_mul beta (snd (sx ! i))))" if "i < length sy"
    using that by (simp add: calculate_spread_rows dn lc concat_axis1_zip_nth(1) [OF ix that])
qed

lemma spread_general:
  assumes d: "distinct (index_of sy)" "distinct (index_of sx)"
  shows "(t, v) \<in> set (calculate_spread sy sx beta) \<longleftrightarrow>
         t \<in> set (index_of sy) \<and> t \<in> set (index_of sx)
         \<and> \<not> isna (at_label sy t) \<and> \<not> isna (at_label sx t)
         \<and> v = fl_sub (at_label sy t) (fl_mul beta (at_label sx t))"
proof -
  have na: "t \<notin> set (index_of sy) \<Longrightarrow> isna (at_label sy t)"
    by (simp add: at_label_None isna_def)
  have nb: "t \<notin> set (index_of sx) \<Longrightarrow> isna (at_label sx t)"
    by (simp add: at_label_None isna_def)
  show ?thesis
    unfolding calculate_spread_rows concat_axis1_as_map [OF d]
    using na nb
    by (auto simp: dropna_def set_union_index image_iff)
qed

text \<open>
  Claim C8. For every aligned pair of series (one shared index, no missing value) and
  every hedge ratio \<open>beta\<close>, the spread has one row per timestamp and its value there is
  \<open>Y[t] - beta * X[t]\<close>. More generally, for two series with unique labels the spread
  has a row exactly at the shared timestamps where both values are present, with that
  value. An empty input series yields an empty result.
\<close>

theorem spread_elementwise:
  "((sy = [] \<or> sx = []) \<longrightarrow> calculate_spread sy sx beta = [])
 \<and> (index_of sy = index_of sx
      \<and> (\<forall>v \<in> set (values_of sy) \<union> set (values_of sx). \<not> isna v) \<longrightarrow>
      length (calculate_spread sy sx beta) = length sy
      \<and> (\<forall>i. i < length sy \<longrightarrow>
            calculate_spread sy sx beta ! i =
              (fst (sy ! i), fl_sub (snd (sy ! i)) (fl_mul beta (snd (sx ! i))))))
 \<and> (distinct (index_of sy) \<and> distinct (index_of sx) \<longrightarrow>
      (\<forall>t v. (t, v) \<in> set (calculate_spread sy sx beta) \<longleftrightarrow>
         t \<in> set (index_of sy) \<and> t \<in> set (index_of sx)
         \<and> \<not> isna (at_label sy t) \<and> \<not> isna (at_label sx t)
         \<and> v = fl_sub (at_label sy t) (fl_mul beta (at_label sx t))))"
  using spread_empty [of sy sx beta] spread_aligned(1) [of sy sx beta]
    spread_aligned(2) [of sy sx _ beta] spread_general [of sy sx _ _ beta]
  by blast

theorem spread_elementwise_witness:
  "calculate_spread [] ex_x (Fin 2) = []
   \<and> index_of ex_y = index_of ex_x
   \<and> distinct (index_of ex_y) \<and> distinct (index_of ex_x)
   \<and> length (calculate_spread ex_y ex_x (Fin 2)) = length ex_y
   \<and> calculate_spread ex_y ex_x (Fin 2) ! 1 =
       (fst (ex_y ! 1), fl_sub (snd (ex_y ! 1)) (fl_mul (Fin 2) (snd (ex_x ! 1))))
   \<and> (1, Fin 3) \<in> set (calculate_spread ex_y ex_x (Fin 2))"
proof -
  note th = spread_elementwise [of ex_y ex_x "Fin 2"]
  have e: "calculate_spread [] ex_x (Fin 2) = []"
    using spread_elementwise [of "[]" ex_x "Fin 2"] by blast
  have ix: "index_of ex_y = index_of ex_x"
    by (simp add: ex_y_def ex_x_def index_of_def)
  have nn: "\<forall>v \<in> set (values_of ex_y) \<union> set (values_of ex_x). \<not> isna v"
    by (simp add: ex_y_def ex_x_def values_of_def isna_def)
  have d: "distinct (index_of ex_y)" "distinct (index_of ex_x)"
    by (simp_all add: ex_y_def ex_x_def index_of_def)
  have i: "(1::nat) < length ex_y"
    by (simp add: ex_y_def)
  from th ix nn have al: "length (calculate_spread ex_y ex_x (Fin 2)) = length ex_y"
    "\<forall>i. i < length ex_y \<longrightarrow> calculate_spread ex_y ex_x (Fin 2) ! i =
        (fst (ex_y ! i), fl_sub (snd (ex_y ! i)) (fl_mul (Fin 2) (snd (ex_x ! i))))"
    by blast+
  from al(2) i have r1: "calculate_spread ex_y ex_x (Fin 2) ! 1 =
       (fst (ex_y ! 1), fl_sub (snd (ex_y ! 1)) (fl_mul (Fin 2) (snd (ex_x ! 1))))"
    by blast
  have m: "(1::int) \<in> set (index_of ex_y) \<and> 1 \<in> set (index_of ex_x)
      \<and> \<not> isna (at_label ex_y 1) \<and> \<not> isna (at_label ex_x 1)
      \<and> Fin 3 = fl_sub (at_label ex_y 1) (fl_mul (Fin 2) (at_label ex_x 1))"
    by (simp add: ex_y_def ex_x_def index_of_def at_label_def isna_def fl_sub_def)
  from th d have "\<forall>t v. (t, v) \<in> set (calculate_spread ex_y ex_x (Fin 2)) \<longleftrightarrow>
         t \<in> set (index_of ex_y) \<and> t \<in> set (index_of ex_x)
         \<and> \<not> isna (at_label ex_y t) \<and> \<not> isna (at_label ex_x t)
         \<and> v = fl_sub (at_label ex_y t) (fl_mul (Fin 2) (at_label ex_x t))"
    by blast
  with m have r2: "(1, Fin 3) \<in> set (calculate_spread ex_y ex_x (Fin 2))"
    by blast
  from e ix d al(1) r1 r2 show ?thesis by blast
qed

section \<open>Properties of the rolling z-score\<close>





lemma last_window_values:
  assumes "1 \<le> w"
  shows "last (window_values s w i) = fin_val (values_of s ! i)"
proof -
  have "Suc i - w \<le> i" using assms by simp
  then show ?thesis by (simp add: window_values_def)
qed


lemma fl_div_NaN_right [simp]: "fl_div a NaN = NaN"
  by (cases a) simp_all


lemma fl_sub_Fin [simp]: "fl_sub (Fin a) (Fin b) = Fin (a - b)"
  by (simp add: fl_sub_def)













text \<open>The two kernels on the sample data.\<close>

lemma underflow_zero [simp]: "underflow 0 = 0"
  by (simp add: underflow_def)















section \<open>Properties of the stationarity tester\<close>

lemma ex_long_clean: "series_dropna ex_long = ex_long"
  by (simp add: series_dropna_def ex_long_def isna_def filter_map comp_def)

lemma ex_long_length: "length ex_long = 25"
  by (simp add: ex_long_def)

lemma ex_long_inf_counts:
  "count_finite ex_long_inf = 19"
  "length (series_dropna ex_long_inf) = 20"
  by (simp_all add: ex_long_inf_def count_finite_def values_of_def series_dropna_def isna_def
      filter_map comp_def)

text \<open>
  A series with 19 finite values and a last value that is infinite. \<open>dropna\<close> keeps the
  infinity, so 20 observations remain and \<open>adfuller\<close> is called; on such an input it
  does not raise and returns a NaN statistic and a NaN p-value. The tester returns a
  result, with \<open>is_stationary\<close> false, although fewer than 20 finite values remain.
\<close>

theorem adf_verdict_with_infinite_value:
  "count_finite ex_long_inf < 20
   \<and> perform_adf_test (adfuller_const NaN NaN) ex_long_inf =
       Some \<lparr> adf_stat = NaN, p_value = NaN, is_stationary = False \<rparr>
   \<and> perform_adf_test (adfuller_const NaN NaN) ex_long_inf \<noteq> None"
  by (simp add: ex_long_inf_counts perform_adf_test_def Let_def adfuller_const_def)

text \<open>
  Claim C5, amended. For every spread series and every behaviour of \<open>adfuller\<close>: when
  fewer than 20 observations remain after \<open>dropna\<close> (the removal of NaN; infinite values
  are kept and counted) the result is unavailable (\<open>None\<close>); when \<open>adfuller\<close> raises
  the result is unavailable too; and a result, when there is one, carries the statistic
  and the p-value of \<open>adfuller\<close> on the values kept by \<open>dropna\<close>, with
  \<open>is_stationary\<close> true exactly when the p-value is less than 0.05 (false for a NaN
  p-value).
\<close>

theorem adf_gating:
  "(length (series_dropna spread_s) < 20 \<longrightarrow> perform_adf_test adfuller spread_s = None)
 \<and> (adfuller (values_of (series_dropna spread_s)) = None \<longrightarrow>
      perform_adf_test adfuller spread_s = None)
 \<and> (\<forall>r. perform_adf_test adfuller spread_s = Some r \<longrightarrow>
      20 \<le> length (series_dropna spread_s)
      \<and> adfuller (values_of (series_dropna spread_s)) = Some (adf_stat r, p_value r)
      \<and> (is_stationary r \<longleftrightarrow> fl_lt (p_value r) (Fin (5 / 100))))
 \<and> (20 \<le> length (series_dropna spread_s) \<longrightarrow>
      (\<forall>stat p. adfuller (values_of (series_dropna spread_s)) = Some (stat, p) \<longrightarrow>
         perform_adf_test adfuller spread_s =
           Some \<lparr> adf_stat = stat, p_value = p, is_stationary = fl_lt p (Fin (5 / 100)) \<rparr>))"
  by (auto simp: perform_adf_test_def Let_def split: option.splits)

theorem adf_gating_witness:
  "length (series_dropna ex_spread) < 20
   \<and> perform_adf_test (adfuller_const (Fin (- 4)) (Fin (1 / 100))) ex_spread = None
   \<and> 20 \<le> length (series_dropna ex_long)
   \<and> adfuller_raises (values_of (series_dropna ex_long)) = None
   \<and> perform_adf_test adfuller_raises ex_long = None
   \<and> perform_adf_test (adfuller_const (Fin (- 4)) (Fin (1 / 100))) ex_long =
       Some \<lparr> adf_stat = Fin (- 4), p_value = Fin (1 / 100), is_stationary = True \<rparr>
   \<and> perform_adf_test (adfuller_const (Fin (- 1)) NaN) ex_long =
       Some \<lparr> adf_stat = Fin (- 1), p_value = NaN, is_stationary = False \<rparr>"
proof -
  have s: "length (series_dropna ex_spread) < 20"
    by (simp add: series_dropna_def ex_spread_def)
  from adf_gating [of ex_spread "adfuller_const (Fin (- 4)) (Fin (1 / 100))"] s
  have r1: "perform_adf_test (adfuller_const (Fin (- 4)) (Fin (1 / 100))) ex_spread = None"
    by blast
  have l: "20 \<le> length (series_dropna ex_long)"
    by (simp add: ex_long_clean ex_long_length)
  have n: "adfuller_raises (values_of (series_dropna ex_long)) = None"
    by (simp add: adfuller_raises_def)
  from adf_gating [of ex_long adfuller_raises] n
  have r2: "perform_adf_test adfuller_raises ex_long = None"
    by blast
  have a: "adfuller_const (Fin (- 4)) (Fin (1 / 100)) (values_of (series_dropna ex_long))
      = Some (Fin (- 4), Fin (1 / 100))"
    by (simp add: adfuller_const_def)
  from adf_gating [of ex_long "adfuller_const (Fin (- 4)) (Fin (1 / 100))"] l a
  have "perform_adf_test (adfuller_const (Fin (- 4)) (Fin (1 / 100))) ex_long =
      Some \<lparr> adf_stat = Fin (- 4), p_value = Fin (1 / 100),
             is_stationary = fl_lt (Fin (1 / 100)) (Fin (5 / 100)) \<rparr>"
    by blast
  then have r3: "perform_adf_test (adfuller_const (Fin (- 4)) (Fin (1 / 100))) ex_long =
      Some \<lparr> adf_stat = Fin (- 4), p_value = Fin (1 / 100), is_stationary = True \<rparr>"
    by simp
  have b: "adfuller_const (Fin (- 1)) NaN (values_of (series_dropna ex_long))
      = Some (Fin (- 1), NaN)"
    by (simp add: adfuller_const_def)
  from adf_gating [of ex_long "adfuller_const (Fin (- 1)) NaN"] l b
  have "perform_adf_test (adfuller_const (Fin (- 1)) NaN) ex_long =
      Some \<lparr> adf_stat = Fin (- 1), p_value = NaN,
             is_stationary = fl_lt NaN (Fin (5 / 100)) \<rparr>"
    by blast
  then have r4: "perform_adf_test (adfuller_const (Fin (- 1)) NaN) ex_long =
      Some \<lparr> adf_stat = Fin (- 1), p_value = NaN, is_stationary = False \<rparr>"
    by simp
  from s r1 l n r2 r3 r4 show ?thesis by blast
qed

section \<open>Properties of the bar aggregator\<close>

lemma freq_ns_pos: "0 < freq_ns tf"
  by (cases tf) simp_all

lemma bucket_start_bounds:
  assumes "0 < d"
  shows "bucket_start d t \<le> t" and "t < bucket_start d t + d"
proof -
  have "t = t div d * d + t mod d" by simp
  moreover have "0 \<le> t mod d" "t mod d < d" using assms by simp_all
  ultimately show "bucket_start d t \<le> t" "t < bucket_start d t + d"
    unfolding bucket_start_def by linarith+
qed

lemma bucket_start_unique:
  assumes d: "0 < d" and lo: "k * d \<le> t" and hi: "t < k * d + d"
  shows "bucket_start d t = k * d"
proof -
  define r where "r = t - k * d"
  have r: "0 \<le> r" "r < d" and t: "t = r + k * d"
    using lo hi by (simp_all add: r_def)
  have "t div d = k"
    unfolding t using r d by simp
  then show ?thesis by (simp add: bucket_start_def)
qed

lemma bucket_start_mono:
  assumes "0 < d" and "t \<le> t'"
  shows "bucket_start d t \<le> bucket_start d t'"
  using assms by (simp add: bucket_start_def zdiv_mono1)

lemma in_bucket_iff:
  assumes "0 < d"
  shows "in_bucket d (k * d) tk \<longleftrightarrow> bucket_start d (fst tk) = k * d"
  using bucket_start_unique [OF assms, of k "fst tk"] bucket_start_bounds [OF assms, of "fst tk"]
  by (auto simp: in_bucket_def)

lemma ohlc_eq:
  "ohlc ps = (if ps = [] then None
              else Some \<lparr> open = hd ps, high = Max (set ps), low = Min (set ps),
                          close = last ps \<rparr>)"
proof (cases ps)
  case Nil
  then show ?thesis by (simp add: ohlc_def)
next
  case (Cons p ps')
  have "fold max ps' p = Max (set (p # ps'))" "fold min ps' p = Min (set (p # ps'))"
    by (simp_all only: Max.set_eq_fold Min.set_eq_fold)
  then show ?thesis using Cons by (simp add: ohlc_def)
qed

lemma set_bars_dropna:
  "set (bars_dropna rs) = {(b, v). (b, Some v) \<in> set rs}"
  by (auto simp: bars_dropna_def List.map_filter_def image_iff split: option.splits) force+

lemma map_fst_bars_dropna:
  "map fst (bars_dropna rs) = map fst (filter (\<lambda>r. snd r \<noteq> None) rs)"
  by (induction rs) (auto simp: bars_dropna_def List.map_filter_def)

lemma sorted_hd_last:
  assumes "sorted (map fst df)" and "tk \<in> set df"
  shows "fst (hd df) \<le> fst tk" and "fst tk \<le> fst (last df)"
proof -
  from assms(2) obtain i where i: "i < length df" "tk = df ! i"
    by (auto simp: in_set_conv_nth)
  have ne: "df \<noteq> []" using assms(2) by auto
  have "map fst df ! 0 \<le> map fst df ! i"
    using assms(1) i(1) by (intro sorted_nth_mono) simp_all
  then show "fst (hd df) \<le> fst tk"
    using i ne by (simp add: hd_conv_nth)
  have "map fst df ! i \<le> map fst df ! (length df - 1)"
    using assms(1) i(1) by (intro sorted_nth_mono) simp_all
  then show "fst tk \<le> fst (last df)"
    using i ne by (simp add: last_conv_nth)
qed

lemma resample_ohlc_rows:
  assumes "df \<noteq> []"
  shows "resample_ohlc d df =
     map (\<lambda>b. (b, ohlc (map snd (filter (in_bucket d b) df)))) (bin_labels d df)"
  using assms by (simp add: resample_ohlc_def bin_labels_def Let_def comp_def del: upt_Suc)

lemma bin_labels_multiple:
  assumes "b \<in> set (bin_labels d df)"
  shows "\<exists>k. b = k * d"
proof -
  from assms obtain j where "b = bucket_start d (fst (hd df)) + int j * d"
    by (auto simp: bin_labels_def simp del: upt_Suc)
  then have "b = (fst (hd df) div d + int j) * d"
    by (simp add: bucket_start_def algebra_simps)
  then show ?thesis by blast
qed

lemma bin_labels_sorted:
  assumes "0 < d"
  shows "sorted_wrt (<) (bin_labels d df)"
  unfolding bin_labels_def sorted_wrt_iff_nth_less
  using assms by (auto simp del: upt_Suc)

lemma bin_labels_cover:
  assumes d: "0 < d" and s: "sorted (map fst df)" and tk: "tk \<in> set df"
  shows "bucket_start d (fst tk) \<in> set (bin_labels d df)"
proof -
  let ?kf = "fst (hd df) div d" and ?kl = "fst (last df) div d" and ?kt = "fst tk div d"
  have le: "?kf \<le> ?kt" "?kt \<le> ?kl"
    using sorted_hd_last [OF s tk] d by (simp_all add: zdiv_mono1)
  have n: "(bucket_start d (fst (last df)) - bucket_start d (fst (hd df))) div d = ?kl - ?kf"
  proof -
    have "bucket_start d (fst (last df)) - bucket_start d (fst (hd df)) = (?kl - ?kf) * d"
      by (simp add: bucket_start_def algebra_simps)
    then show ?thesis using d by simp
  qed
  define j where "j = nat (?kt - ?kf)"
  have "bucket_start d (fst tk) = bucket_start d (fst (hd df)) + int j * d"
    using le by (simp add: j_def bucket_start_def algebra_simps)
  moreover have "j < nat (?kl - ?kf) + 1"
    unfolding j_def using le by linarith
  then have "j \<in> set [0..<nat (?kl - ?kf) + 1]"
    by (simp del: upt_Suc)
  ultimately show ?thesis
    unfolding bin_labels_def n set_map by (rule image_eqI)
qed

lemma filter_in_bucket_nonempty:
  assumes d: "0 < d" and b: "b \<in> set (bin_labels d df)"
  shows "filter (in_bucket d b) df \<noteq> [] \<longleftrightarrow> (\<exists>tk \<in> set df. bucket_start d (fst tk) = b)"
proof -
  from bin_labels_multiple [OF b] obtain k where k: "b = k * d" by blast
  show ?thesis
    unfolding k by (auto simp: filter_empty_conv in_bucket_iff [OF d])
qed

lemma resample_bars_rows:
  assumes ne: "rows \<noteq> []" and p: "mset (sort_values rows) = mset rows"
  shows "(b, r) \<in> set (resample_bars sort_values tf rows) \<longleftrightarrow>
     b \<in> set (bin_labels (freq_ns tf) (sort_values rows))
     \<and> ohlc (map snd (filter (in_bucket (freq_ns tf) b) (sort_values rows))) = Some r"
proof -
  have "sort_values rows \<noteq> []"
    using ne p by (metis mset_zero_iff)
  then show ?thesis
    by (auto simp: resample_bars_def set_bars_dropna resample_ohlc_rows)
qed

lemma resample_bars_sorted:
  "sorted_wrt (<) (map fst (resample_bars sort_values tf rows))"
proof (cases "sort_values rows = []")
  case True
  then show ?thesis
    by (simp add: resample_bars_def resample_ohlc_def bars_dropna_def List.map_filter_def)
next
  case False
  let ?rs = "resample_ohlc (freq_ns tf) (sort_values rows)"
  have "map fst ?rs = bin_labels (freq_ns tf) (sort_values rows)"
    using False by (simp add: resample_ohlc_rows comp_def)
  then have "sorted_wrt (<) (map fst ?rs)"
    using bin_labels_sorted [OF freq_ns_pos] by simp
  then have "sorted_wrt (\<lambda>x y. fst x < fst y) ?rs"
    by (simp add: sorted_wrt_map)
  then have "sorted_wrt (\<lambda>x y. fst x < fst y) (filter (\<lambda>r. snd r \<noteq> None) ?rs)"
    by (rule sorted_wrt_filter)
  then show ?thesis
    by (simp add: resample_bars_def map_fst_bars_dropna sorted_wrt_map)
qed

lemma bucket_rows_sorted:
  assumes s: "sorted (map fst df)" and tk: "tk \<in> set (filter P df)"
  shows "fst (hd (filter P df)) \<le> fst tk" and "fst tk \<le> fst (last (filter P df))"
proof -
  have "sorted (map fst (filter P df))"
    using s by (rule sorted_filter)
  from sorted_hd_last [OF this tk]
  show "fst (hd (filter P df)) \<le> fst tk" "fst tk \<le> fst (last (filter P df))" .
qed

lemma resample_bars_spec:
  assumes p: "mset (sort_values rows) = mset rows"
    and s: "sorted (map fst (sort_values rows))"
  shows "(\<forall>k. (\<exists>r. (k * freq_ns tf, r) \<in> set (resample_bars sort_values tf rows)) \<longleftrightarrow>
          (\<exists>tk \<in> set rows. k * freq_ns tf \<le> fst tk \<and> fst tk < k * freq_ns tf + freq_ns tf))
   \<and> (\<forall>b r. (b, r) \<in> set (resample_bars sort_values tf rows) \<longrightarrow>
          (\<exists>k. b = k * freq_ns tf)
        \<and> filter (in_bucket (freq_ns tf) b) (sort_values rows) \<noteq> []
        \<and> set (filter (in_bucket (freq_ns tf) b) (sort_values rows)) =
            {tk \<in> set rows. b \<le> fst tk \<and> fst tk < b + freq_ns tf}
        \<and> (\<forall>tk \<in> set (filter (in_bucket (freq_ns tf) b) (sort_values rows)).
              fst (hd (filter (in_bucket (freq_ns tf) b) (sort_values rows))) \<le> fst tk
            \<and> fst tk \<le> fst (last (filter (in_bucket (freq_ns tf) b) (sort_values rows))))
        \<and> open r = snd (hd (filter (in_bucket (freq_ns tf) b) (sort_values rows)))
        \<and> close r = snd (last (filter (in_bucket (freq_ns tf) b) (sort_values rows)))
        \<and> high r = Max {snd tk | tk. tk \<in> set rows \<and> b \<le> fst tk \<and> fst tk < b + freq_ns tf}
        \<and> low r = Min {snd tk | tk. tk \<in> set rows \<and> b \<le> fst tk \<and> fst tk < b + freq_ns tf})"
proof -
  let ?d = "freq_ns tf" and ?df = "sort_values rows"
  have d: "0 < ?d" by (rule freq_ns_pos)
  have st: "set ?df = set rows" using p by (rule mset_eq_setD)
  have em: "sort_values rows = []" if "rows = []"
    using p that by simp
  have bucket_set: "set (filter (in_bucket ?d b) ?df) =
      {tk \<in> set rows. b \<le> fst tk \<and> fst tk < b + ?d}" for b
    by (auto simp: st in_bucket_def)
  have iff: "(\<exists>r. (k * ?d, r) \<in> set (resample_bars sort_values tf rows)) \<longleftrightarrow>
      (\<exists>tk \<in> set rows. k * ?d \<le> fst tk \<and> fst tk < k * ?d + ?d)" for k
  proof (cases "rows = []")
    case True
    from em [OF True] have "resample_bars sort_values tf rows = []"
      by (simp add: resample_bars_def resample_ohlc_def bars_dropna_def List.map_filter_def)
    then show ?thesis
      using True by simp
  next
    case False
    show ?thesis
    proof
      assume "\<exists>r. (k * ?d, r) \<in> set (resample_bars sort_values tf rows)"
      then obtain r where "ohlc (map snd (filter (in_bucket ?d (k * ?d)) ?df)) = Some r"
        using resample_bars_rows [where sort_values = sort_values and rows = rows, OF False p] by blast
      then have "filter (in_bucket ?d (k * ?d)) ?df \<noteq> []"
        by (auto simp: ohlc_eq split: if_splits)
      then obtain tk where "tk \<in> set (filter (in_bucket ?d (k * ?d)) ?df)"
        by (meson last_in_set)
      then show "\<exists>tk \<in> set rows. k * ?d \<le> fst tk \<and> fst tk < k * ?d + ?d"
        unfolding bucket_set by blast
    next
      assume "\<exists>tk \<in> set rows. k * ?d \<le> fst tk \<and> fst tk < k * ?d + ?d"
      then obtain tk where tk: "tk \<in> set ?df" "k * ?d \<le> fst tk" "fst tk < k * ?d + ?d"
        using st by blast
      have b: "bucket_start ?d (fst tk) = k * ?d"
        using bucket_start_unique [OF d tk(2,3)] .
      have lab: "k * ?d \<in> set (bin_labels ?d ?df)"
        using bin_labels_cover [OF d s tk(1)] b by simp
      have "tk \<in> set (filter (in_bucket ?d (k * ?d)) ?df)"
        using tk by (simp add: in_bucket_def)
      then have "filter (in_bucket ?d (k * ?d)) ?df \<noteq> []"
        by (metis empty_iff empty_set)
      then have "\<exists>r. ohlc (map snd (filter (in_bucket ?d (k * ?d)) ?df)) = Some r"
        by (simp add: ohlc_eq)
      with lab show "\<exists>r. (k * ?d, r) \<in> set (resample_bars sort_values tf rows)"
        using resample_bars_rows [where sort_values = sort_values and rows = rows, OF False p] by blast
    qed
  qed
  have bar: "(\<exists>k. b = k * ?d)
        \<and> filter (in_bucket ?d b) ?df \<noteq> []
        \<and> set (filter (in_bucket ?d b) ?df) = {tk \<in> set rows. b \<le> fst tk \<and> fst tk < b + ?d}
        \<and> (\<forall>tk \<in> set (filter (in_bucket ?d b) ?df).
              fst (hd (filter (in_bucket ?d b) ?df)) \<le> fst tk
            \<and> fst tk \<le> fst (last (filter (in_bucket ?d b) ?df)))
        \<and> open r = snd (hd (filter (in_bucket ?d b) ?df))
        \<and> close r = snd (last (filter (in_bucket ?d b) ?df))
        \<and> high r = Max {snd tk | tk. tk \<in> set rows \<and> b \<le> fst tk \<and> fst tk < b + ?d}
        \<and> low r = Min {snd tk | tk. tk \<in> set rows \<and> b \<le> fst tk \<and> fst tk < b + ?d}"
    if m: "(b, r) \<in> set (resample_bars sort_values tf rows)" for b r
  proof -
    let ?ts = "filter (in_bucket ?d b) ?df"
    have ne: "rows \<noteq> []"
      using m em by (auto simp: resample_bars_def resample_ohlc_def bars_dropna_def
          List.map_filter_def)
    from m have lab: "b \<in> set (bin_labels ?d ?df)" and o: "ohlc (map snd ?ts) = Some r"
      using resample_bars_rows [where sort_values = sort_values and rows = rows, OF ne p] by blast+
    from o have tne: "?ts \<noteq> []" by (auto simp: ohlc_eq split: if_splits)
    from o tne have r: "r = \<lparr> open = hd (map snd ?ts), high = Max (set (map snd ?ts)),
        low = Min (set (map snd ?ts)), close = last (map snd ?ts) \<rparr>"
      by (simp add: ohlc_eq)
    have ps: "set (map snd ?ts) = {snd tk | tk. tk \<in> set rows \<and> b \<le> fst tk \<and> fst tk < b + ?d}"
      unfolding set_map bucket_set by blast
    have o1: "open r = snd (hd ?ts)" using tne by (simp add: r hd_map)
    have o2: "close r = snd (last ?ts)" using tne by (simp add: r last_map)
    have o3: "high r = Max {snd tk | tk. tk \<in> set rows \<and> b \<le> fst tk \<and> fst tk < b + ?d}"
      unfolding ps [symmetric] by (simp add: r)
    have o4: "low r = Min {snd tk | tk. tk \<in> set rows \<and> b \<le> fst tk \<and> fst tk < b + ?d}"
      unfolding ps [symmetric] by (simp add: r)
    have o5: "\<forall>tk \<in> set ?ts. fst (hd ?ts) \<le> fst tk \<and> fst tk \<le> fst (last ?ts)"
      using bucket_rows_sorted [OF s] by blast
    show ?thesis
      using bin_labels_multiple [OF lab] tne bucket_set [of b] o1 o2 o3 o4 o5 by blast
  qed
  show ?thesis
    using iff bar by blast
qed

lemma load_data_sorted:
  "sorted_wrt (<) (map fst
     (load_data read_sql to_datetime sort_values resample_accepts symbol tf limit))"
  by (simp add: load_data_def resample_bars_sorted split: option.split)

lemma load_data_raises:
  "read_sql symbol limit = None \<Longrightarrow>
     load_data read_sql to_datetime sort_values resample_accepts symbol tf limit = []"
  by (simp add: load_data_def)

lemma load_data_no_bars:
  assumes "read_sql symbol limit = Some rows"
    and "rows = [] \<or> to_datetime (map fst rows) = None \<or> \<not> resample_accepts tf"
  shows "load_data read_sql to_datetime sort_values resample_accepts symbol tf limit = []"
  using assms by (auto simp: load_data_def split: option.split)

lemma load_data_success:
  assumes "read_sql symbol limit = Some rows" and "rows \<noteq> []"
    and "to_datetime (map fst rows) = Some ts" and "resample_accepts tf"
  shows "load_data read_sql to_datetime sort_values resample_accepts symbol tf limit =
     resample_bars sort_values tf (parsed_ticks ts rows)"
  using assms by (simp add: load_data_def)

lemma parsed_ticks_columns:
  assumes "length ts = length rows"
  shows "map fst (parsed_ticks ts rows) = ts" and "map snd (parsed_ticks ts rows) = map snd rows"
  using assms by (simp_all add: parsed_ticks_def)

lemma ex_sorted_ticks:
  "sort_key fst ex_ticks = [(200000000, 10), (700000000, 11), (2500000000, 12)]"
  by (simp add: ex_ticks_def)

lemma ex_to_datetime:
  "to_datetime_inferred ex_parse (map fst ex_rows) = Some [2500000000, 700000000, 200000000]"
  by (simp add: to_datetime_inferred_def ex_rows_def ex_parse_def)

lemma ex_to_datetime_mixed: "to_datetime_inferred ex_parse (map fst ex_rows_mixed) = None"
  by (simp add: to_datetime_inferred_def ex_rows_mixed_def)

lemma ex_parsed_ticks: "parsed_ticks [2500000000, 700000000, 200000000] ex_rows = ex_ticks"
  by (simp add: parsed_ticks_def ex_rows_def ex_ticks_def)

lemma ex_resample_bars: "resample_bars (sort_key fst) OneSecond ex_ticks = ex_bars"
  unfolding resample_bars_def ex_sorted_ticks
  by (simp add: ex_bars_def resample_ohlc_def Let_def bucket_start_def
      in_bucket_def ohlc_def bars_dropna_def List.map_filter_def upt_rec)

lemma ex_load_data:
  "load_data ex_read_sql (to_datetime_inferred ex_parse) (sort_key fst) accepts_all
     ''BTCUSDT'' OneSecond 10000 = ex_bars"
proof -
  have "load_data ex_read_sql (to_datetime_inferred ex_parse) (sort_key fst) accepts_all
      ''BTCUSDT'' OneSecond 10000 =
    resample_bars (sort_key fst) OneSecond
      (parsed_ticks [2500000000, 700000000, 200000000] ex_rows)"
  proof (rule load_data_success)
    show "ex_read_sql ''BTCUSDT'' 10000 = Some ex_rows" by (simp add: ex_read_sql_def)
    show "ex_rows \<noteq> []" by (simp add: ex_rows_def)
    show "to_datetime_inferred ex_parse (map fst ex_rows) =
        Some [2500000000, 700000000, 200000000]" by (rule ex_to_datetime)
    show "accepts_all OneSecond" by (simp add: accepts_all_def)
  qed
  then show ?thesis
    by (simp only: ex_parsed_ticks ex_resample_bars)
qed

text \<open>
  The claim as the specification states it fails: three stored ticks, of which one was
  traded on a full second. The tick of price 10 lies in the first second, and no bar
  comes out, because the parse of the timestamp column raises and \<open>load_data\<close> returns
  the empty frame of its \<open>except\<close> branch. The same happens to well-formed rows when the
  installed pandas refuses the frequency alias.
\<close>

theorem load_data_no_bar_for_stored_ticks:
  "ex_read_sql_mixed ''BTCUSDT'' 10000 = Some ex_rows_mixed
   \<and> (''1970-01-01 00:00:00.200000'', 10) \<in> set ex_rows_mixed
   \<and> ex_parse ''1970-01-01 00:00:00.200000'' = 200000000
   \<and> 0 * freq_ns OneSecond \<le> 200000000
   \<and> 200000000 < 0 * freq_ns OneSecond + freq_ns OneSecond
   \<and> load_data ex_read_sql_mixed (to_datetime_inferred ex_parse) (sort_key fst) accepts_all
        ''BTCUSDT'' OneSecond 10000 = []
   \<and> ex_read_sql ''BTCUSDT'' 10000 = Some ex_rows
   \<and> (''1970-01-01 00:00:00.200000'', 10) \<in> set ex_rows
   \<and> load_data ex_read_sql (to_datetime_inferred ex_parse) (sort_key fst) accepts_none
        ''BTCUSDT'' OneSecond 10000 = []"
proof -
  have q1: "ex_read_sql_mixed ''BTCUSDT'' 10000 = Some ex_rows_mixed"
    by (simp add: ex_read_sql_mixed_def)
  have q2: "ex_read_sql ''BTCUSDT'' 10000 = Some ex_rows"
    by (simp add: ex_read_sql_def)
  have m1: "(''1970-01-01 00:00:00.200000'', 10) \<in> set ex_rows_mixed"
    by (simp add: ex_rows_mixed_def)
  have m2: "(''1970-01-01 00:00:00.200000'', 10) \<in> set ex_rows"
    by (simp add: ex_rows_def)
  have v: "ex_parse ''1970-01-01 00:00:00.200000'' = 200000000"
    by (simp add: ex_parse_def)
  have i: "0 * freq_ns OneSecond \<le> 200000000"
    "200000000 < 0 * freq_ns OneSecond + freq_ns OneSecond"
    by simp_all
  have e1: "load_data ex_read_sql_mixed (to_datetime_inferred ex_parse) (sort_key fst)
      accepts_all ''BTCUSDT'' OneSecond 10000 = []"
    by (rule load_data_no_bars [where rows = ex_rows_mixed])
      (simp_all add: q1 ex_to_datetime_mixed)
  have e2: "load_data ex_read_sql (to_datetime_inferred ex_parse) (sort_key fst)
      accepts_none ''BTCUSDT'' OneSecond 10000 = []"
    by (rule load_data_no_bars [where rows = ex_rows])
      (simp_all add: q2 accepts_none_def)
  from q1 m1 v i e1 q2 m2 e2 show ?thesis by blast
qed

text \<open>
  Claim C7, amended. \<open>load_data\<close> never raises, and its bars are in ascending order, one
  per interval. It returns an empty bar sequence when the query returns no tick, and
  also when the query, the parse of the timestamps or the resampling raises. When none
  of them raises (the ticks being the rows of the query with their timestamps parsed),
  for each of the three bar intervals and whatever order the sort gives to ticks with
  equal timestamps: a bar is emitted for the interval \<open>[k d, k d + d)\<close> if and only if a
  tick lies in it; every bar is labelled by the start of its interval, has \<open>open\<close> = the
  price of the first tick of the interval in sorted order (a tick of least timestamp),
  \<open>close\<close> = the price of the last one (a tick of greatest timestamp), and \<open>high\<close> /
  \<open>low\<close> = the greatest / least price of the ticks of the interval.
\<close>

theorem bars_from_ticks:
  "(read_sql symbol limit = None \<longrightarrow>
      load_data read_sql to_datetime sort_values resample_accepts symbol tf limit = [])
   \<and> (read_sql symbol limit = Some rows
        \<and> (rows = [] \<or> to_datetime (map fst rows) = None \<or> \<not> resample_accepts tf) \<longrightarrow>
      load_data read_sql to_datetime sort_values resample_accepts symbol tf limit = [])
   \<and> (read_sql symbol limit = Some rows \<and> to_datetime (map fst rows) = Some ts
        \<and> length ts = length rows \<and> resample_accepts tf
        \<and> mset (sort_values (parsed_ticks ts rows)) = mset (parsed_ticks ts rows)
        \<and> sorted (map fst (sort_values (parsed_ticks ts rows))) \<longrightarrow>
      map fst (parsed_ticks ts rows) = ts
      \<and> map snd (parsed_ticks ts rows) = map snd rows
      \<and> (\<forall>k. (\<exists>r. (k * freq_ns tf, r) \<in> set (load_data read_sql to_datetime sort_values
                    resample_accepts symbol tf limit)) \<longleftrightarrow>
             (\<exists>tk \<in> set (parsed_ticks ts rows).
                 k * freq_ns tf \<le> fst tk \<and> fst tk < k * freq_ns tf + freq_ns tf))
      \<and> (\<forall>b r. (b, r) \<in> set (load_data read_sql to_datetime sort_values resample_accepts
                    symbol tf limit) \<longrightarrow>
             (\<exists>k. b = k * freq_ns tf)
           \<and> filter (in_bucket (freq_ns tf) b) (sort_values (parsed_ticks ts rows)) \<noteq> []
           \<and> set (filter (in_bucket (freq_ns tf) b) (sort_values (parsed_ticks ts rows))) =
               {tk \<in> set (parsed_ticks ts rows). b \<le> fst tk \<and> fst tk < b + freq_ns tf}
           \<and> (\<forall>tk \<in> set (filter (in_bucket (freq_ns tf) b)
                             (sort_values (parsed_ticks ts rows))).
                 fst (hd (filter (in_bucket (freq_ns tf) b)
                            (sort_values (parsed_ticks ts rows)))) \<le> fst tk
               \<and> fst tk \<le> fst (last (filter (in_bucket (freq_ns tf) b)
                                        (sort_values (parsed_ticks ts rows)))))
           \<and> open r = snd (hd (filter (in_bucket (freq_ns tf) b)
                                  (sort_values (parsed_ticks ts rows))))
           \<and> close r = snd (last (filter (in_bucket (freq_ns tf) b)
                                     (sort_values (parsed_ticks ts rows))))
           \<and> high r = Max {snd tk | tk. tk \<in> set (parsed_ticks ts rows)
                                        \<and> b \<le> fst tk \<and> fst tk < b + freq_ns tf}
           \<and> low r = Min {snd tk | tk. tk \<in> set (parsed_ticks ts rows)
                                       \<and> b \<le> fst tk \<and> fst tk < b + freq_ns tf}))
   \<and> sorted_wrt (<) (map fst
        (load_data read_sql to_datetime sort_values resample_accepts symbol tf limit))"
proof -
  let ?out = "load_data read_sql to_datetime sort_values resample_accepts symbol tf limit"
  let ?ticks = "parsed_ticks ts rows"
  have c1: "read_sql symbol limit = None \<longrightarrow> ?out = []"
    by (simp add: load_data_raises)
  have c2: "read_sql symbol limit = Some rows
        \<and> (rows = [] \<or> to_datetime (map fst rows) = None \<or> \<not> resample_accepts tf) \<longrightarrow>
      ?out = []"
    using load_data_no_bars [of read_sql symbol limit rows to_datetime resample_accepts tf
        sort_values] by blast
  have c4: "sorted_wrt (<) (map fst ?out)"
    by (rule load_data_sorted)
  have c3: "map fst ?ticks = ts
      \<and> map snd ?ticks = map snd rows
      \<and> (\<forall>k. (\<exists>r. (k * freq_ns tf, r) \<in> set ?out) \<longleftrightarrow>
             (\<exists>tk \<in> set ?ticks. k * freq_ns tf \<le> fst tk \<and> fst tk < k * freq_ns tf + freq_ns tf))
      \<and> (\<forall>b r. (b, r) \<in> set ?out \<longrightarrow>
             (\<exists>k. b = k * freq_ns tf)
           \<and> filter (in_bucket (freq_ns tf) b) (sort_values ?ticks) \<noteq> []
           \<and> set (filter (in_bucket (freq_ns tf) b) (sort_values ?ticks)) =
               {tk \<in> set ?ticks. b \<le> fst tk \<and> fst tk < b + freq_ns tf}
           \<and> (\<forall>tk \<in> set (filter (in_bucket (freq_ns tf) b) (sort_values ?ticks)).
                 fst (hd (filter (in_bucket (freq_ns tf) b) (sort_values ?ticks))) \<le> fst tk
               \<and> fst tk \<le> fst (last (filter (in_bucket (freq_ns tf) b) (sort_values ?ticks))))
           \<and> open r = snd (hd (filter (in_bucket (freq_ns tf) b) (sort_values ?ticks)))
           \<and> close r = snd (last (filter (in_bucket (freq_ns tf) b) (sort_values ?ticks)))
           \<and> high r = Max {snd tk | tk. tk \<in> set ?ticks
                                        \<and> b \<le> fst tk \<and> fst tk < b + freq_ns tf}
           \<and> low r = Min {snd tk | tk. tk \<in> set ?ticks
                                       \<and> b \<le> fst tk \<and> fst tk < b + freq_ns tf})"
    if q: "read_sql symbol limit = Some rows" and t: "to_datetime (map fst rows) = Some ts"
      and l: "length ts = length rows" and a: "resample_accepts tf"
      and p: "mset (sort_values ?ticks) = mset ?ticks"
      and s: "sorted (map fst (sort_values ?ticks))"
  proof -
    have out: "?out = resample_bars sort_values tf ?ticks"
    proof (cases "rows = []")
      case True
      then have e: "?ticks = []" by (simp add: parsed_ticks_def)
      have "sort_values ?ticks = []" using p unfolding e by simp
      then have "resample_bars sort_values tf ?ticks = []"
        by (simp add: resample_bars_def resample_ohlc_def bars_dropna_def List.map_filter_def)
      moreover have "?out = []" using q True by (simp add: load_data_def)
      ultimately show ?thesis by simp
    next
      case False
      then show ?thesis using q t a by (simp add: load_data_success)
    qed
    show ?thesis
      unfolding out
      using parsed_ticks_columns [OF l]
        resample_bars_spec [where sort_values = sort_values and rows = "?ticks" and tf = tf,
          OF p s]
      by blast
  qed
  show ?thesis
    using c1 c2 c3 c4 by blast
qed

theorem bars_from_ticks_witness:
  "ex_read_sql ''BTCUSDT'' 10000 = Some ex_rows
   \<and> to_datetime_inferred ex_parse (map fst ex_rows) = Some (map fst ex_ticks)
   \<and> length (map fst ex_ticks) = length ex_rows
   \<and> accepts_all OneSecond
   \<and> parsed_ticks (map fst ex_ticks) ex_rows = ex_ticks
   \<and> mset (sort_key fst ex_ticks) = mset ex_ticks
   \<and> sorted (map fst (sort_key fst ex_ticks))
   \<and> (\<exists>r. (0 * freq_ns OneSecond, r) \<in> set (load_data ex_read_sql
          (to_datetime_inferred ex_parse) (sort_key fst) accepts_all ''BTCUSDT'' OneSecond 10000))
   \<and> \<not> (\<exists>r. (1 * freq_ns OneSecond, r) \<in> set (load_data ex_read_sql
          (to_datetime_inferred ex_parse) (sort_key fst) accepts_all ''BTCUSDT'' OneSecond 10000))
   \<and> (0, \<lparr> open = 10, high = 11, low = 10, close = 11 \<rparr>)
        \<in> set (load_data ex_read_sql (to_datetime_inferred ex_parse) (sort_key fst) accepts_all
                 ''BTCUSDT'' OneSecond 10000)
   \<and> (10::real) = snd (hd (filter (in_bucket (freq_ns OneSecond) 0) (sort_key fst ex_ticks)))
   \<and> (11::real) = Max {snd tk | tk. tk \<in> set ex_ticks \<and> 0 \<le> fst tk
                                      \<and> fst tk < 0 + freq_ns OneSecond}
   \<and> sorted_wrt (<) (map fst (load_data ex_read_sql (to_datetime_inferred ex_parse)
          (sort_key fst) accepts_all ''BTCUSDT'' OneSecond 10000))
   \<and> load_data read_sql_raises (to_datetime_inferred ex_parse) (sort_key fst) accepts_all
        ''BTCUSDT'' OneSecond 10000 = []
   \<and> load_data read_sql_empty (to_datetime_inferred ex_parse) (sort_key fst) accepts_all
        ''BTCUSDT'' OneSecond 10000 = []
   \<and> load_data ex_read_sql_mixed (to_datetime_inferred ex_parse) (sort_key fst) accepts_all
        ''BTCUSDT'' OneSecond 10000 = []
   \<and> load_data ex_read_sql (to_datetime_inferred ex_parse) (sort_key fst) accepts_none
        ''BTCUSDT'' OneSecond 10000 = []"
proof -
  let ?out = "load_data ex_read_sql (to_datetime_inferred ex_parse) (sort_key fst) accepts_all
      ''BTCUSDT'' OneSecond 10000"
  let ?b0 = "\<lparr> open = 10, high = 11, low = 10, close = 11 \<rparr> :: bar"
  have q: "ex_read_sql ''BTCUSDT'' 10000 = Some ex_rows"
    by (simp add: ex_read_sql_def)
  have t: "to_datetime_inferred ex_parse (map fst ex_rows) = Some (map fst ex_ticks)"
    by (simp add: ex_to_datetime ex_ticks_def)
  have l: "length (map fst ex_ticks) = length ex_rows"
    by (simp add: ex_ticks_def ex_rows_def)
  have a: "accepts_all OneSecond"
    by (simp add: accepts_all_def)
  have pt: "parsed_ticks (map fst ex_ticks) ex_rows = ex_ticks"
    using ex_parsed_ticks by (simp add: ex_ticks_def)
  have p: "mset (sort_key fst ex_ticks) = mset ex_ticks"
    by (rule mset_sort)
  have s: "sorted (map fst (sort_key fst ex_ticks))"
    by (rule sorted_sort_key)
  note th = bars_from_ticks [where read_sql = ex_read_sql
      and to_datetime = "to_datetime_inferred ex_parse" and sort_values = "sort_key fst"
      and resample_accepts = accepts_all and symbol = "''BTCUSDT''" and tf = OneSecond
      and limit = 10000 and rows = ex_rows and ts = "map fst ex_ticks", unfolded pt]
  have t0: "\<exists>tk \<in> set ex_ticks. 0 * freq_ns OneSecond \<le> fst tk
      \<and> fst tk < 0 * freq_ns OneSecond + freq_ns OneSecond"
    by (simp add: ex_ticks_def)
  from th q t l a p s t0 have r0: "\<exists>r. (0 * freq_ns OneSecond, r) \<in> set ?out"
    by blast
  have t1: "\<not> (\<exists>tk \<in> set ex_ticks. 1 * freq_ns OneSecond \<le> fst tk
      \<and> fst tk < 1 * freq_ns OneSecond + freq_ns OneSecond)"
    by (simp add: ex_ticks_def)
  from th q t l a p s t1 have r1: "\<not> (\<exists>r. (1 * freq_ns OneSecond, r) \<in> set ?out)"
    by blast
  have m: "(0, ?b0) \<in> set ?out"
    by (simp add: ex_load_data ex_bars_def)
  from th q t l a p s m
  have "open ?b0 = snd (hd (filter (in_bucket (freq_ns OneSecond) 0) (sort_key fst ex_ticks)))"
    and "high ?b0 = Max {snd tk | tk. tk \<in> set ex_ticks \<and> 0 \<le> fst tk
                                      \<and> fst tk < 0 + freq_ns OneSecond}"
    by blast+
  then have r2: "(10::real) = snd (hd (filter (in_bucket (freq_ns OneSecond) 0) (sort_key fst ex_ticks)))"
    and r3: "(11::real) = Max {snd tk | tk. tk \<in> set ex_ticks \<and> 0 \<le> fst tk
                                      \<and> fst tk < 0 + freq_ns OneSecond}"
    by simp_all
  from th have r4: "sorted_wrt (<) (map fst ?out)"
    by blast
  have "read_sql_raises ''BTCUSDT'' 10000 = None"
    by (simp add: read_sql_raises_def)
  with bars_from_ticks [where read_sql = read_sql_raises
      and to_datetime = "to_datetime_inferred ex_parse" and sort_values = "sort_key fst"
      and resample_accepts = accepts_all and symbol = "''BTCUSDT''" and tf = OneSecond
      and limit = 10000 and rows = "[]" and ts = "[]"]
  have e1: "load_data read_sql_raises (to_datetime_inferred ex_parse) (sort_key fst) accepts_all
        ''BTCUSDT'' OneSecond 10000 = []"
    by blast
  have "read_sql_empty ''BTCUSDT'' 10000 = Some []"
    by (simp add: read_sql_empty_def)
  with bars_from_ticks [where read_sql = read_sql_empty
      and to_datetime = "to_datetime_inferred ex_parse" and sort_values = "sort_key fst"
      and resample_accepts = accepts_all and symbol = "''BTCUSDT''" and tf = OneSecond
      and limit = 10000 and rows = "[]" and ts = "[]"]
  have e2: "load_data read_sql_empty (to_datetime_inferred ex_parse) (sort_key fst) accepts_all
        ''BTCUSDT'' OneSecond 10000 = []"
    by blast
  have "ex_read_sql_mixed ''BTCUSDT'' 10000 = Some ex_rows_mixed"
    and "to_datetime_inferred ex_parse (map fst ex_rows_mixed) = None"
    by (simp_all add: ex_read_sql_mixed_def ex_to_datetime_mixed)
  with bars_from_ticks [where read_sql = ex_read_sql_mixed
      and to_datetime = "to_datetime_inferred ex_parse" and sort_values = "sort_key fst"
      and resample_accepts = accepts_all and symbol = "''BTCUSDT''" and tf = OneSecond
      and limit = 10000 and rows = ex_rows_mixed and ts = "[]"]
  have e3: "load_data ex_read_sql_mixed (to_datetime_inferred ex_parse) (sort_key fst) accepts_all
        ''BTCUSDT'' OneSecond 10000 = []"
    by blast
  have "\<not> accepts_none OneSecond"
    by (simp add: accepts_none_def)
  with q bars_from_ticks [where read_sql = ex_read_sql
      and to_datetime = "to_datetime_inferred ex_parse" and sort_values = "sort_key fst"
      and resample_accepts = accepts_none and symbol = "''BTCUSDT''" and tf = OneSecond
      and limit = 10000 and rows = ex_rows and ts = "[]"]
  have e4: "load_data ex_read_sql (to_datetime_inferred ex_parse) (sort_key fst) accepts_none
        ''BTCUSDT'' OneSecond 10000 = []"
    by blast
  from q t l a pt p s r0 r1 m r2 r3 r4 e1 e2 e3 e4 show ?thesis by blast
qed

section \<open>Properties of the pair aligner\<close>












section \<open>Properties of the hedge estimator\<close>


lemma dot_ones_right:
  "length xs = n \<Longrightarrow> dot xs (replicate n 1) = sum_list xs"
  by (induction xs arbitrary: n) (auto simp: dot_def)
































lemma hedge_long:
  assumes "5 \<le> length (paired_obs sy sx)"
  shows "calculate_ols_hedge_ratio sy sx =
     (case OLS_fit_params (map (\<lambda>(t, y, x). y) (paired_obs sy sx))
             (add_constant (map (\<lambda>(t, y, x). x) (paired_obs sy sx))) of
        None \<Rightarrow> Fin 0
      | Some params \<Rightarrow> (case iloc params 1 of None \<Rightarrow> Fin 0 | Some beta \<Rightarrow> beta))"
proof -
  have "paired_obs sy sx \<noteq> []" "\<not> length (paired_obs sy sx) < 5"
    using assms by auto
  then show ?thesis
    by (simp add: calculate_ols_hedge_ratio_def paired_obs_def Let_def)
qed





lemma length_obs [simp]:
  "length (obs_x sy sx) = length (paired_obs sy sx)"
  "length (obs_y sy sx) = length (paired_obs sy sx)"
  by (simp_all add: obs_x_def obs_y_def)















text \<open>
  An infinite value in \<open>Y\<close> does not make the fit raise: the slope returned is the
  product of a row of the pseudo-inverse with \<open>Y\<close>, here \<open>+inf\<close>.
\<close>

lemma ex_paired_inf_y:
  "paired_obs ex_inf_y ex_x =
     [(0, Fin 5, Fin 1), (1, Fin 7, Fin 2), (2, Fin 9, Fin 3), (3, Fin 11, Fin 4),
      (4, Fin 13, Fin 5), (5, PInf, Fin 6)]"
  by (simp add: paired_obs_def concat_axis1_def dropna_def ex_inf_y_def ex_x_def index_of_def
      isna_def)

lemma hedge_infinite_y: "calculate_ols_hedge_ratio ex_inf_y ex_x = PInf"
proof -
  have n: "5 \<le> length (paired_obs ex_inf_y ex_x)"
    by (simp add: ex_paired_inf_y)
  have a: "add_constant [Fin 1, Fin 2, Fin 3, Fin 4, Fin 5, Fin 6] =
      [[Fin 1, Fin 1, Fin 1, Fin 1, Fin 1, Fin 1], [Fin 1, Fin 2, Fin 3, Fin 4, Fin 5, Fin 6]]"
    by (simp add: add_constant_def is_nonzero_const_def eval_nat_numeral)
  have p: "pinv [[1, 1, 1, 1, 1, 1], [1, 2, 3, 4, 5, 6]] =
      [[2 / 3, 7 / 15, 4 / 15, 1 / 15, - 2 / 15, - 1 / 3],
       [- 1 / 7, - 3 / 35, - 1 / 35, 1 / 35, 3 / 35, 1 / 7]]"
    by (simp add: dot_def Let_def)
  have f: "OLS_fit_params [Fin 5, Fin 7, Fin 9, Fin 11, Fin 13, PInf]
      [[Fin 1, Fin 1, Fin 1, Fin 1, Fin 1, Fin 1], [Fin 1, Fin 2, Fin 3, Fin 4, Fin 5, Fin 6]] =
      Some [NInf, PInf]"
    by (simp add: OLS_fit_params_def p fl_dot_def inf_of_def del: pinv.simps)
  show ?thesis
    unfolding hedge_long [OF n] ex_paired_inf_y
    by (simp add: a f iloc_def)
qed

end
